theory Spec2Isabelle
  imports Main "HOL-Library.Sublist"
begin

section \<open>Data model\<close>

text \<open>
  The sanitizer works on the node tree of golang.org/x/net/html. A node carries its
  type, its data (the tag name of an element, the content of a text node), its ordered
  attribute list and its children in document order (the FirstChild/NextSibling chain).
  Go strings are byte sequences; they are modelled as \<open>string\<close>, one \<open>char\<close> per byte.
\<close>

datatype NodeType =
  ErrorNode | TextNode | DocumentNode | ElementNode | CommentNode | DoctypeNode | RawNode

record Attribute =
  Namespace :: string
  Key :: string
  Val :: string

datatype Node =
  Node (Type: NodeType) (Data: string) (Attr: "Attribute list") (Children: "Node list")

text \<open>The error value of a failed read or parse.\<close>

datatype error = Error string

section \<open>Attribute helpers for transformers\<close>

text \<open>
  \<open>SetAttr\<close> overwrites the value of the first attribute whose key matches and appends
  a new attribute when there is none. The Go code mutates \<open>n.Attr\<close> in place; the
  model returns the updated node.
\<close>

fun setAttrList :: "Attribute list \<Rightarrow> string \<Rightarrow> string \<Rightarrow> Attribute list" where
  "setAttrList [] key val = [\<lparr>Namespace = [], Key = key, Val = val\<rparr>]"
| "setAttrList (a # as) key val =
     (if Key a = key then a\<lparr>Val := val\<rparr> # as else a # setAttrList as key val)"

definition SetAttr :: "Node \<Rightarrow> string \<Rightarrow> string \<Rightarrow> Node" where
  "SetAttr n key val = Node (Type n) (Data n) (setAttrList (Attr n) key val) (Children n)"

fun getAttrList :: "Attribute list \<Rightarrow> string \<Rightarrow> string" where
  "getAttrList [] key = []"
| "getAttrList (a # as) key = (if Key a = key then Val a else getAttrList as key)"

definition GetAttr :: "Node \<Rightarrow> string \<Rightarrow> string" where
  "GetAttr n key = getAttrList (Attr n) key"

fun removeAttrList :: "Attribute list \<Rightarrow> string \<Rightarrow> Attribute list" where
  "removeAttrList [] key = []"
| "removeAttrList (a # as) key =
     (if Key a \<noteq> key then a # removeAttrList as key else removeAttrList as key)"

definition RemoveAttr :: "Node \<Rightarrow> string \<Rightarrow> Node" where
  "RemoveAttr n key = Node (Type n) (Data n) (removeAttrList (Attr n) key) (Children n)"

section \<open>Library functions of Go the sanitizer calls\<close>

text \<open>
  \<open>html.Parse\<close> (golang.org/x/net/html) and \<open>url.Parse\<close> (net/url) are not part of
  the repository: the specification treats the parser as an external collaborator. They
  are parameters of the model. Of the parsed URL the code reads the scheme only.

  Go strings hold UTF-8. \<open>strings.ToLower\<close>, \<open>strings.TrimSpace\<close>, \<open>strings.Map\<close> and
  the regexp package work on code points. On a string of ASCII bytes alone they work byte
  by byte, and the model writes that out. What they return for a string that holds a
  byte from 0x80 on (Unicode case mapping, Unicode white space, the replacement of
  invalid UTF-8) is taken from the library, as a parameter.
\<close>

record URL =
  Scheme :: string

record Lib =
  html_Parse :: "string \<Rightarrow> error + Node"
  url_Parse :: "string \<Rightarrow> error + URL"
  unicode_ToLower :: "string \<Rightarrow> string"
  unicode_TrimSpace :: "string \<Rightarrow> string"
  unicode_stripControl :: "string \<Rightarrow> string"
  unicode_FindAllURL :: "string \<Rightarrow> (nat \<times> nat) list"

text \<open>No byte of the string is \<open>utf8.RuneSelf\<close> (0x80) or above.\<close>

definition isASCII :: "string \<Rightarrow> bool" where
  "isASCII s = list_all (\<lambda>c. \<not> digit7 c) s"

text \<open>
  \<open>strings.ToLower\<close>: on an ASCII string the letters A to Z are mapped to a to z and
  every other byte is kept; any other string goes through \<open>unicode.ToLower\<close>.
\<close>

definition lowerTable :: "(char \<times> char) list" where
  "lowerTable = zip ''ABCDEFGHIJKLMNOPQRSTUVWXYZ'' ''abcdefghijklmnopqrstuvwxyz''"

definition ToLowerChar :: "char \<Rightarrow> char" where
  "ToLowerChar c = (case map_of lowerTable c of Some l \<Rightarrow> l | None \<Rightarrow> c)"

definition ToLower :: "Lib \<Rightarrow> string \<Rightarrow> string" where
  "ToLower L s = (if isASCII s then map ToLowerChar s else unicode_ToLower L s)"

text \<open>
  \<open>strings.TrimSpace\<close>: on an ASCII string leading and trailing tab, line feed,
  vertical tab, form feed, carriage return and space are removed; any other string is
  trimmed of Unicode white space by the library.
\<close>

definition isSpace :: "char \<Rightarrow> bool" where
  "isSpace c = (c \<in> set [CHR 0x09, CHR 0x0A, CHR 0x0B, CHR 0x0C, CHR 0x0D, CHR 0x20])"

definition TrimSpace :: "Lib \<Rightarrow> string \<Rightarrow> string" where
  "TrimSpace L s =
     (if isASCII s then rev (dropWhile isSpace (rev (dropWhile isSpace s)))
      else unicode_TrimSpace L s)"

text \<open>
  \<open>html.EscapeString\<close> of golang.org/x/net/html: the characters of its
  \<open>escapedChars\<close> are replaced by character references, all others are copied.
\<close>

definition escapeChar :: "char \<Rightarrow> string" where
  \<open>escapeChar c =
     (if c = CHR ''&'' then ''&amp;''
      else if c = CHR 0x27 then ''&#39;''
      else if c = CHR ''<'' then ''&lt;''
      else if c = CHR ''>'' then ''&gt;''
      else if c = CHR 0x22 then ''&#34;''
      else if c = CHR 0x0D then ''&#13;''
      else [c])\<close>

definition EscapeString :: "string \<Rightarrow> string" where
  "EscapeString s = concat (map escapeChar s)"

section \<open>Policy\<close>

text \<open>
  A transformer receives a node and returns a node or nil. In Go it may mutate the node
  it is given; the model takes the node it returns as the result of the mutation.
\<close>

type_synonym Transformer = "Node \<Rightarrow> Node option"

record Policy =
  AllowedTags :: "string list"
  AllowedAttributes :: "string \<rightharpoonup> string list"
  AllowedSchemes :: "string list"
  StripDisallowed :: bool
  Transformers :: "Transformer list"
  Linkify :: bool
  MaxDepth :: int

definition DefaultPolicy :: Policy where
  "DefaultPolicy = \<lparr>
     AllowedTags =
       [''h1'', ''h2'', ''h3'', ''h4'', ''h5'', ''h6'',
        ''p'', ''br'', ''hr'',
        ''b'', ''i'', ''em'', ''strong'', ''u'', ''s'', ''strike'', ''del'', ''ins'',
        ''a'', ''img'',
        ''ul'', ''ol'', ''li'',
        ''table'', ''thead'', ''tbody'', ''tfoot'', ''tr'', ''th'', ''td'',
        ''code'', ''pre'', ''kbd'', ''samp'',
        ''blockquote'', ''cite'', ''q'',
        ''figure'', ''figcaption'',
        ''div'', ''span'', ''section'', ''article'', ''header'', ''footer'',
        ''details'', ''summary'',
        ''abbr'', ''acronym'', ''address'',
        ''sup'', ''sub''],
     AllowedAttributes =
       [''a'' \<mapsto> [''href'', ''title'', ''target'', ''rel''],
        ''img'' \<mapsto> [''src'', ''alt'', ''title'', ''width'', ''height'', ''loading''],
        ''td'' \<mapsto> [''colspan'', ''rowspan'', ''align'', ''valign''],
        ''th'' \<mapsto> [''colspan'', ''rowspan'', ''align'', ''valign'', ''scope''],
        ''blockquote'' \<mapsto> [''cite''],
        ''q'' \<mapsto> [''cite''],
        ''abbr'' \<mapsto> [''title''],
        ''acronym'' \<mapsto> [''title''],
        ''*'' \<mapsto> [''id'', ''class'', ''lang'', ''dir'']],
     AllowedSchemes = [''http'', ''https'', ''mailto''],
     StripDisallowed = False,
     Transformers = [],
     Linkify = False,
     MaxDepth = 0 \<rparr>"

definition StrictPolicy :: Policy where
  "StrictPolicy = \<lparr>
     AllowedTags = [''b'', ''i'', ''em'', ''strong'', ''br'', ''p'', ''ul'', ''ol'', ''li''],
     AllowedAttributes = Map.empty,
     AllowedSchemes = [''https''],
     StripDisallowed = True,
     Transformers = [],
     Linkify = False,
     MaxDepth = 0 \<rparr>"

section \<open>Helpers of the engine\<close>

definition sliceToSet :: "Lib \<Rightarrow> string list \<Rightarrow> string set" where
  "sliceToSet L s = set (map (ToLower L) s)"

definition isVoidElement :: "string \<Rightarrow> bool" where
  "isVoidElement tag =
     (tag \<in> set [''area'', ''base'', ''br'', ''col'', ''embed'', ''hr'', ''img'', ''input'',
                 ''link'', ''meta'', ''param'', ''source'', ''track'', ''wbr''])"

definition renderAttr :: "Attribute \<Rightarrow> string" where
  \<open>renderAttr a = '' '' @ Key a @ ''="'' @ Val a @ ''"''\<close>

definition renderOpenTag :: "Node \<Rightarrow> string" where
  "renderOpenTag n = ''<'' @ Data n @ concat (map renderAttr (Attr n)) @ ''>''"

fun find :: "Node \<Rightarrow> Node option" and findIn :: "Node list \<Rightarrow> Node option" where
  "find (Node ty d as cs) =
     (if ty = ElementNode \<and> d = ''body'' then Some (Node ty d as cs) else findIn cs)"
| "findIn [] = None"
| "findIn (c # cs) = (case find c of Some r \<Rightarrow> Some r | None \<Rightarrow> findIn cs)"

definition findBody :: "Node \<Rightarrow> Node option" where
  "findBody doc = find doc"

subsection \<open>Scheme validation\<close>

fun firstHref :: "Attribute list \<Rightarrow> string option" where
  "firstHref [] = None"
| "firstHref (a # as) = (if Key a = ''href'' then Some (Val a) else firstHref as)"

text \<open>
  The traversal inside \<open>htmlDecodeMinimal\<close>: it assigns \<open>found\<close> at an \<open>a\<close> element
  that has an \<open>href\<close> and returns from that call only; the loops of the callers go on,
  so the variable is threaded through the walk.
\<close>

fun decodeWalk :: "Node \<Rightarrow> string \<Rightarrow> string"
  and decodeWalkList :: "Node list \<Rightarrow> string \<Rightarrow> string" where
  "decodeWalk (Node ty d as cs) found =
     (if ty = ElementNode \<and> d = ''a''
      then (case firstHref as of Some v \<Rightarrow> v | None \<Rightarrow> decodeWalkList cs found)
      else decodeWalkList cs found)"
| "decodeWalkList [] found = found"
| "decodeWalkList (c # cs) found = decodeWalkList cs (decodeWalk c found)"

definition htmlDecodeMinimal :: "Lib \<Rightarrow> string \<Rightarrow> string" where
  \<open>htmlDecodeMinimal L s =
     (case html_Parse L (''<a href="'' @ s @ ''">'') of
        Inl err \<Rightarrow> s
      | Inr doc \<Rightarrow> (let found = decodeWalk doc [] in if found \<noteq> [] then found else s))\<close>

text \<open>
  The \<open>strings.Map\<close> call of \<open>schemeAllowed\<close>, which drops the code points below
  0x20 and 0x7F.
\<close>

definition stripControl :: "Lib \<Rightarrow> string \<Rightarrow> string" where
  "stripControl L s =
     (if isASCII s then filter (\<lambda>r. \<not> ((of_char r :: nat) < 0x20 \<or> r = CHR 0x7F)) s
      else unicode_stripControl L s)"

definition schemeAllowed :: "Lib \<Rightarrow> string \<Rightarrow> string set \<Rightarrow> bool" where
  "schemeAllowed L raw schemes =
     (let raw1 = TrimSpace L raw;
          decoded = htmlDecodeMinimal L raw1;
          decoded1 = ToLower L (TrimSpace L decoded);
          decoded2 = stripControl L decoded1
      in case url_Parse L decoded2 of
           Inl err \<Rightarrow> False
         | Inr u \<Rightarrow>
             (let scheme = ToLower L (Scheme u)
              in if scheme = [] then True else scheme \<in> schemes))"

subsection \<open>Attribute filter\<close>

definition attrAllowed :: "string \<Rightarrow> string \<Rightarrow> (string \<rightharpoonup> string list) \<Rightarrow> bool" where
  "attrAllowed attr tag allowed =
     (if (case allowed ''*'' of Some list \<Rightarrow> attr \<in> set list | None \<Rightarrow> False) then True
      else if (case allowed tag of Some list \<Rightarrow> attr \<in> set list | None \<Rightarrow> False) then True
      else False)"

fun filterAttrs ::
  "Lib \<Rightarrow> Attribute list \<Rightarrow> string \<Rightarrow> (string \<rightharpoonup> string list) \<Rightarrow> string set \<Rightarrow> Attribute list"
where
  "filterAttrs L [] tag allowed schemes = []"
| "filterAttrs L (a # attrs) tag allowed schemes =
     (if \<not> attrAllowed (Key a) tag allowed then filterAttrs L attrs tag allowed schemes
      else if (Key a = ''href'' \<or> Key a = ''src'' \<or> Key a = ''action'')
              \<and> \<not> schemeAllowed L (Val a) schemes
      then filterAttrs L attrs tag allowed schemes
      else a # filterAttrs L attrs tag allowed schemes)"

subsection \<open>Linkifier\<close>

text \<open>
  \<open>urlRegexp\<close> is \<^verbatim>\<open>https?://[^\s<>"]+[^\s<>".,;:!?)\]]\<close>. In Go's syntax \<^verbatim>\<open>\s\<close> is
  tab, line feed, form feed, carriage return and space. The first class is \<open>urlChar\<close>,
  the second \<open>urlEnd\<close>. The greedy \<^verbatim>\<open>+\<close> followed by one character of the second
  class matches the longest prefix of the run of \<open>urlChar\<close> characters that has at least
  two characters and ends in a \<open>urlEnd\<close> character. This is the matching of an
  ASCII text; the matches in any other text are taken from the library.
\<close>

definition reSpace :: "char \<Rightarrow> bool" where
  "reSpace c = (c \<in> set [CHR 0x09, CHR 0x0A, CHR 0x0C, CHR 0x0D, CHR 0x20])"

definition urlChar :: "char \<Rightarrow> bool" where
  \<open>urlChar c = (\<not> reSpace c \<and> c \<notin> set ''<>"'')\<close>

definition urlEnd :: "char \<Rightarrow> bool" where
  \<open>urlEnd c = (urlChar c \<and> c \<notin> set ''.,;:!?)]'')\<close>

definition schemePrefix :: "string \<Rightarrow> nat option" where
  "schemePrefix s =
     (if take 8 s = ''https://'' then Some 8
      else if take 7 s = ''http://'' then Some 7
      else None)"

text \<open>The length of the match of \<open>urlRegexp\<close> at the start of \<open>s\<close>, if there is one.\<close>

definition matchURL :: "string \<Rightarrow> nat option" where
  "matchURL s =
     (case schemePrefix s of
        None \<Rightarrow> None
      | Some k \<Rightarrow>
          (let run = takeWhile urlChar (drop k s);
               body = rev (dropWhile (\<lambda>c. \<not> urlEnd c) (rev run))
           in if 2 \<le> length body then Some (k + length body) else None))"

text \<open>
  \<open>FindAllStringIndex(text, -1)\<close>: the successive leftmost matches, as pairs of start
  and end offsets. A match has at least nine characters, so the scan resumes after it.
\<close>

fun findAllFrom :: "nat \<Rightarrow> string \<Rightarrow> (nat \<times> nat) list" where
  "findAllFrom i [] = []"
| "findAllFrom i (c # cs) =
     (case matchURL (c # cs) of
        Some n \<Rightarrow> (i, i + n) # findAllFrom (i + n) (drop (n - 1) cs)
      | None \<Rightarrow> findAllFrom (i + 1) cs)"

definition FindAllStringIndex :: "Lib \<Rightarrow> string \<Rightarrow> (nat \<times> nat) list" where
  "FindAllStringIndex L text =
     (if isASCII text then findAllFrom 0 text else unicode_FindAllURL L text)"

definition slice :: "string \<Rightarrow> nat \<Rightarrow> nat \<Rightarrow> string" where
  "slice s lo hi = take (hi - lo) (drop lo s)"

fun writeMatches :: "string \<Rightarrow> nat \<Rightarrow> (nat \<times> nat) list \<Rightarrow> string" where
  "writeMatches text lst [] = EscapeString (drop lst text)"
| \<open>writeMatches text lst (m # ms) =
     (let rawURL = slice text (fst m) (snd m)
      in EscapeString (slice text lst (fst m))
         @ ''<a href="'' @ EscapeString rawURL @ ''" rel="noopener noreferrer">''
         @ EscapeString rawURL @ ''</a>''
         @ writeMatches text (snd m) ms)\<close>

definition writeLinkedText :: "Lib \<Rightarrow> string \<Rightarrow> string" where
  "writeLinkedText L text = writeMatches text 0 (FindAllStringIndex L text)"

subsection \<open>Transformer pipeline\<close>

text \<open>
  The loop \<^verbatim>\<open>for _, t := range p.Transformers { if n = t(n); n == nil { return } }\<close>.
\<close>

fun runTransformers :: "Transformer list \<Rightarrow> Node \<Rightarrow> Node option" where
  "runTransformers [] n = Some n"
| "runTransformers (t # ts) n =
     (case t n of None \<Rightarrow> None | Some n1 \<Rightarrow> runTransformers ts n1)"

section \<open>The sanitization engine\<close>

text \<open>
  The closure \<open>walk\<close> of \<open>SanitizeReader\<close> writes to a buffer; the model returns what
  one call appends. \<open>walkNodes\<close> is the loop over a chain of siblings, \<open>walk\<close> the call
  on one node. After the transformers have run, the walk goes on in the children of the
  node they returned, so a transformer that keeps returning larger nodes makes the
  recursion run forever: the result is an option, and \<open>None\<close> is a walk that does not
  return.
\<close>

definition writeOpen :: "string \<Rightarrow> Attribute list \<Rightarrow> string" where
  \<open>writeOpen tag attrs =
     ''<'' @ tag @ concat (map (\<lambda>a. '' '' @ Key a @ ''="'' @ EscapeString (Val a) @ ''"'') attrs)\<close>

partial_function (option) walkNodes :: "Lib \<Rightarrow> Policy \<Rightarrow> Node list \<Rightarrow> int \<Rightarrow> string option" where
  "walkNodes L p ns depth =
     (case ns of
        [] \<Rightarrow> Some []
      | n # rest \<Rightarrow>
          Option.bind
            (case Type n of
               TextNode \<Rightarrow>
                 Some (if Linkify p then writeLinkedText L (Data n) else EscapeString (Data n))
             | ElementNode \<Rightarrow>
                 (let tag = ToLower L (Data n);
                      tooDeep = (MaxDepth p > 0 \<and> depth > MaxDepth p);
                      allowed = (tag \<in> sliceToSet L (AllowedTags p) \<and> \<not> tooDeep)
                  in if allowed then
                       (case runTransformers (Transformers p)
                               (Node (Type n) (Data n)
                                  (filterAttrs L (Attr n) tag (AllowedAttributes p)
                                     (sliceToSet L (AllowedSchemes p)))
                                  (Children n)) of
                          None \<Rightarrow> Some []
                        | Some n1 \<Rightarrow>
                            if isVoidElement tag then Some (writeOpen tag (Attr n1) @ '' />'')
                            else Option.bind (walkNodes L p (Children n1) (depth + 1))
                                   (\<lambda>inner. Some (writeOpen tag (Attr n1) @ ''>'' @ inner
                                                    @ ''</'' @ tag @ ''>'')))
                     else if StripDisallowed p then Some []
                     else Option.bind (walkNodes L p (Children n) (depth + 1))
                            (\<lambda>inner. Some (EscapeString (renderOpenTag n) @ inner
                                @ (if \<not> isVoidElement tag
                                   then EscapeString (''</'' @ tag @ ''>'') else []))))
             | DocumentNode \<Rightarrow> walkNodes L p (Children n) depth
             | DoctypeNode \<Rightarrow> Some []
             | CommentNode \<Rightarrow> Some []
             | _ \<Rightarrow> walkNodes L p (Children n) depth)
            (\<lambda>out. Option.bind (walkNodes L p rest depth) (\<lambda>outs. Some (out @ outs))))"

definition walk :: "Lib \<Rightarrow> Policy \<Rightarrow> Node \<Rightarrow> int \<Rightarrow> string option" where
  "walk L p n depth = walkNodes L p [n] depth"

text \<open>
  \<open>SanitizeReader\<close>: a nil policy is replaced by \<open>DefaultPolicy\<close>; a parse error is
  returned as it is; the walk starts at the children of the body at depth 1, or at the
  document at depth 0 when there is no body. The outer option is \<open>None\<close> when the walk
  does not return.
\<close>

definition SanitizeReader :: "Lib \<Rightarrow> string \<Rightarrow> Policy option \<Rightarrow> (error + string) option" where
  "SanitizeReader L r p0 =
     (let p = (case p0 of None \<Rightarrow> DefaultPolicy | Some q \<Rightarrow> q)
      in case html_Parse L r of
           Inl err \<Rightarrow> Some (Inl err)
         | Inr doc \<Rightarrow>
             map_option Inr
               (case findBody doc of
                  Some body \<Rightarrow> walkNodes L p (Children body) 1
                | None \<Rightarrow> walk L p doc 0))"

definition Sanitize :: "Lib \<Rightarrow> string \<Rightarrow> Policy option \<Rightarrow> (error + string) option" where
  "Sanitize L htmlStr p = SanitizeReader L htmlStr p"

section \<open>The text extractor\<close>

fun textWalk :: "Node \<Rightarrow> string" and textWalkList :: "Node list \<Rightarrow> string" where
  "textWalk (Node ty d as cs) = (if ty = TextNode then d else []) @ textWalkList cs"
| "textWalkList [] = []"
| "textWalkList (c # cs) = textWalk c @ textWalkList cs"

definition StripTags :: "Lib \<Rightarrow> string \<Rightarrow> error + string" where
  "StripTags L htmlStr =
     (case html_Parse L htmlStr of
        Inl err \<Rightarrow> Inl err
      | Inr doc \<Rightarrow>
          (case findBody doc of
             Some body \<Rightarrow> Inr (textWalk body)
           | None \<Rightarrow> Inr (textWalk doc)))"

section \<open>Notions used to state the properties\<close>




text \<open>
  The contents of the text nodes of a subtree that do not lie beneath a void element, a
  comment or a doctype, in document order; and what the engine writes for one of them.
\<close>

fun subtreeTexts :: "Lib \<Rightarrow> Node \<Rightarrow> string list"
  and subtreeTextsList :: "Lib \<Rightarrow> Node list \<Rightarrow> string list" where
  "subtreeTexts L (Node ty d as cs) =
     (if ty = TextNode then [d]
      else if ty = CommentNode \<or> ty = DoctypeNode then []
      else if ty = ElementNode \<and> isVoidElement (ToLower L d) then []
      else subtreeTextsList L cs)"
| "subtreeTextsList L [] = []"
| "subtreeTextsList L (c # cs) = subtreeTexts L c @ subtreeTextsList L cs"

text \<open>
  A tree without its comment and doctype nodes (and what lies beneath them), and the
  trees in which these nodes have no children, as the parser builds them.
\<close>

fun stripComments :: "Node \<Rightarrow> Node" and stripCommentsList :: "Node list \<Rightarrow> Node list" where
  "stripComments (Node ty d as cs) = Node ty d as (stripCommentsList cs)"
| "stripCommentsList [] = []"
| "stripCommentsList (c # cs) =
     (if Type c = CommentNode \<or> Type c = DoctypeNode then stripCommentsList cs
      else stripComments c # stripCommentsList cs)"

fun commentsAreLeaves :: "Node \<Rightarrow> bool" and commentsAreLeavesList :: "Node list \<Rightarrow> bool" where
  "commentsAreLeaves (Node ty d as cs) =
     (if ty = CommentNode \<or> ty = DoctypeNode then cs = [] else commentsAreLeavesList cs)"
| "commentsAreLeavesList [] = True"
| "commentsAreLeavesList (c # cs) = (commentsAreLeaves c \<and> commentsAreLeavesList cs)"

text \<open>The nodes of a subtree in document order, the root first.\<close>

fun nodesOf :: "Node \<Rightarrow> Node list" and nodesOfList :: "Node list \<Rightarrow> Node list" where
  "nodesOf (Node ty d as cs) = Node ty d as cs # nodesOfList cs"
| "nodesOfList [] = []"
| "nodesOfList (c # cs) = nodesOf c @ nodesOfList cs"

text \<open>
  Plain text: not empty, no white space in front, and none of the characters the
  tokenizer treats specially (the start of a tag or of a character reference, NUL,
  carriage return).
\<close>

definition plainText :: "string \<Rightarrow> bool" where
  "plainText s =
     (s \<noteq> [] \<and> \<not> isSpace (hd s)
      \<and> list_all (\<lambda>c. c \<notin> set [CHR ''<'', CHR ''&'', CHR 0x00, CHR 0x0D]) s)"

definition emitText :: "Lib \<Rightarrow> Policy \<Rightarrow> string \<Rightarrow> string" where
  "emitText L p t = (if Linkify p then writeLinkedText L t else EscapeString t)"

section \<open>Example inputs\<close>

text \<open>
  The zero value \<^verbatim>\<open>Policy{}\<close> of Go: nil slices, a nil map, false and 0.
\<close>

definition emptyPolicy :: Policy where
  "emptyPolicy = \<lparr>
     AllowedTags = [], AllowedAttributes = Map.empty, AllowedSchemes = [],
     StripDisallowed = False, Transformers = [], Linkify = False, MaxDepth = 0 \<rparr>"

text \<open>
  The transformer of the test \<open>TestSanitize_TransformerNilRemovesNode\<close>, which removes
  every \<open>b\<close> element, and one that sets an \<open>href\<close> with \<open>SetAttr\<close>.
\<close>

definition vetoBold :: Transformer where
  "vetoBold n = (if Type n = ElementNode \<and> Data n = ''b'' then None else Some n)"

text \<open>
  A transformer that turns the comment children of the node into text nodes, as
  \<^verbatim>\<open>c.Type = html.TextNode\<close> does in Go.
\<close>

definition retypeComments :: Transformer where
  "retypeComments n =
     Some (Node (Type n) (Data n) (Attr n)
             (map (\<lambda>c. if Type c = CommentNode
                        then Node TextNode (Data c) (Attr c) (Children c) else c)
                  (Children n)))"

definition addHref :: Transformer where
  "addHref n = Some (SetAttr n ''href'' ''javascript:alert(1)'')"

definition textNode :: "string \<Rightarrow> Node" where
  "textNode s = Node TextNode s [] []"

definition element :: "string \<Rightarrow> Attribute list \<Rightarrow> Node list \<Rightarrow> Node" where
  "element tag as cs = Node ElementNode tag as cs"

definition attr :: "string \<Rightarrow> string \<Rightarrow> Attribute" where
  "attr k v = \<lparr>Namespace = [], Key = k, Val = v\<rparr>"

text \<open>
  \<open>html.Parse\<close> wraps the content of a fragment in \<open>html\<close>, \<open>head\<close> and \<open>body\<close>
  elements below the document node.
\<close>

definition document :: "Node list \<Rightarrow> Node" where
  "document ns =
     Node DocumentNode [] []
       [Node ElementNode ''html'' []
          [Node ElementNode ''head'' [] [], Node ElementNode ''body'' [] ns]]"

text \<open>
  The body contents \<open>html.Parse\<close> builds for the inputs of the examples below, by the
  tree construction rules of HTML5: character references in text and attribute values
  are decoded, the content of \<open>script\<close> is raw text, a second \<open>a\<close> start tag closes
  an open \<open>a\<close> element. The table stands for the parser on these inputs only.
\<close>

definition exampleTrees :: "(string \<times> Node list) list" where
  \<open>exampleTrees =
     [(''<b>Hello</b> <script>alert('xss')</script>'',
         [element ''b'' [] [textNode ''Hello''], textNode '' '',
          element ''script'' [] [textNode ''alert('xss')'']]),
      (''<b>x</b>'', [element ''b'' [] [textNode ''x'']]),
      (''<b></b>'', [element ''b'' [] []]),
      (''<b><!--secret--></b>'', [element ''b'' [] [Node CommentNode ''secret'' [] []]]),
      (''&lt;b&gt;x&lt;/b&gt;'', [textNode ''<b>x</b>'']),
      (''<div><div><div><b>deep</b></div></div></div>'',
         [element ''div'' [] [element ''div'' [] [element ''div'' []
            [element ''b'' [] [textNode ''deep'']]]]]),
      (''<nav><b>remove me</b> keep</nav>'',
         [element ''nav'' [] [element ''b'' [] [textNode ''remove me''], textNode '' keep'']]),
      (''x'', [textNode ''x'']),
      (''&lt;nav&gt;<b>remove me</b> keep&lt;/nav&gt;'',
         [textNode ''<nav>'', element ''b'' [] [textNode ''remove me''],
          textNode '' keep</nav>'']),
      (''<a>x</a>'', [element ''a'' [] [textNode ''x'']]),
      (''https://example.com'', [textNode ''https://example.com'']),
      (''<a href="https://example.com" rel="noopener noreferrer">https://example.com</a>'',
         [element ''a'' [attr ''href'' ''https://example.com'', attr ''rel'' ''noopener noreferrer'']
            [textNode ''https://example.com'']]),
      (''<a href="https://example.com">'',
         [element ''a'' [attr ''href'' ''https://example.com''] []]),
      (''<a href="&#106;avascript:alert(1)">click</a>'',
         [element ''a'' [attr ''href'' ''javascript:alert(1)''] [textNode ''click'']]),
      (''<a href="javascript:alert(1)">'',
         [element ''a'' [attr ''href'' ''javascript:alert(1)''] []]),
      (''<a href="/about">'', [element ''a'' [attr ''href'' ''/about''] []]),
      (''<a href='javascript:alert(1)//"><a href="x'>click</a>'',
         [element ''a'' [attr ''href'' ''javascript:alert(1)//"><a href="x'']
            [textNode ''click'']]),
      (''<a href="javascript:alert(1)//"><a href="x">'',
         [element ''a'' [attr ''href'' ''javascript:alert(1)//''] [],
          element ''a'' [attr ''href'' ''x''] []])]\<close>

definition exampleParse :: "string \<Rightarrow> error + Node" where
  "exampleParse s =
     (case map_of exampleTrees s of
        Some ns \<Rightarrow> Inr (document ns)
      | None \<Rightarrow> Inl (Error ''input outside the examples''))"

text \<open>The scheme \<open>url.Parse\<close> finds in the URLs of the examples.\<close>

definition exampleURL :: "string \<Rightarrow> error + URL" where
  "exampleURL s =
     (if s = ''https://example.com'' then Inr \<lparr>Scheme = ''https''\<rparr>
      else if s = ''javascript:alert(1)'' then Inr \<lparr>Scheme = ''javascript''\<rparr>
      else if s = ''/about'' then Inr \<lparr>Scheme = []\<rparr>
      else if s = ''x'' then Inr \<lparr>Scheme = []\<rparr>
      else Inl (Error ''input outside the examples''))"

text \<open>
  Every string of the examples is ASCII, so the code-point paths of the string functions
  are not reached; the identity and the empty list of matches stand in for them.
\<close>

definition exampleLib :: Lib where
  "exampleLib = \<lparr>html_Parse = exampleParse, url_Parse = exampleURL,
     unicode_ToLower = (\<lambda>s. s), unicode_TrimSpace = (\<lambda>s. s),
     unicode_stripControl = (\<lambda>s. s), unicode_FindAllURL = (\<lambda>s. [])\<rparr>"

text \<open>
  The example library with a parser that, in addition, reads every plain text as one
  text node below the body.
\<close>

definition plainTextLib :: Lib where
  "plainTextLib = exampleLib\<lparr>html_Parse :=
     (\<lambda>s. if plainText s then Inr (document [textNode s]) else exampleParse s)\<rparr>"

section \<open>Properties of the attribute helpers\<close>

lemma getAttrList_setAttrList: "getAttrList (setAttrList as k v) k = v"
  by (induction as) simp_all

lemma keys_setAttrList_present:
  "k \<in> Key ` set as \<Longrightarrow> map Key (setAttrList as k v) = map Key as"
  by (induction as) auto

lemma setAttrList_absent:
  "k \<notin> Key ` set as \<Longrightarrow>
     setAttrList as k v = as @ [\<lparr>Namespace = [], Key = k, Val = v\<rparr>]"
  by (induction as) auto

lemma removeAttrList_filter: "removeAttrList as k = filter (\<lambda>a. Key a \<noteq> k) as"
  by (induction as) simp_all

lemma getAttrList_absent: "k \<notin> Key ` set as \<Longrightarrow> getAttrList as k = []"
  by (induction as) auto

lemma getAttrList_removeAttrList: "getAttrList (removeAttrList as k) k = []"
  by (rule getAttrList_absent) (auto simp: removeAttrList_filter)

text \<open>
  Claim C10. After \<open>SetAttr n k v\<close>, \<open>GetAttr n k\<close> is \<open>v\<close>; an existing attribute is
  updated in place (the key sequence is unchanged), a missing one is appended. After
  \<open>RemoveAttr n k\<close>, \<open>GetAttr n k\<close> is the empty string and the remaining attributes
  keep their relative order (the result is the order-preserving filter of the list).
  \<open>GetAttr\<close> on an absent key is the empty string.
\<close>

theorem attr_helpers_roundtrip:
  "GetAttr (SetAttr n k v) k = v
   \<and> (k \<in> Key ` set (Attr n) \<longrightarrow> map Key (Attr (SetAttr n k v)) = map Key (Attr n))
   \<and> (k \<notin> Key ` set (Attr n) \<longrightarrow>
        Attr (SetAttr n k v) = Attr n @ [\<lparr>Namespace = [], Key = k, Val = v\<rparr>])
   \<and> GetAttr (RemoveAttr n k) k = []
   \<and> Attr (RemoveAttr n k) = filter (\<lambda>a. Key a \<noteq> k) (Attr n)
   \<and> (k \<notin> Key ` set (Attr n) \<longrightarrow> GetAttr n k = [])"
proof -
  have "getAttrList (filter (\<lambda>a. Key a \<noteq> k) (Attr n)) k = []"
    using getAttrList_removeAttrList [of "Attr n" k] by (simp add: removeAttrList_filter)
  then show ?thesis
    by (simp add: GetAttr_def SetAttr_def RemoveAttr_def getAttrList_setAttrList
        keys_setAttrList_present setAttrList_absent removeAttrList_filter getAttrList_absent)
qed

theorem attr_helpers_roundtrip_witness:
  "GetAttr (SetAttr (Node ElementNode ''a'' [\<lparr>Namespace = [], Key = ''href'', Val = ''x''\<rparr>] [])
      ''href'' ''y'') ''href'' = ''y''
   \<and> map Key (Attr (SetAttr (Node ElementNode ''a''
        [\<lparr>Namespace = [], Key = ''href'', Val = ''x''\<rparr>] []) ''href'' ''y'')) = [''href'']
   \<and> Attr (SetAttr (Node ElementNode ''a'' [] []) ''rel'' ''z'')
        = [\<lparr>Namespace = [], Key = ''rel'', Val = ''z''\<rparr>]
   \<and> GetAttr (Node ElementNode ''a'' [] []) ''href'' = []"
  using attr_helpers_roundtrip [of "Node ElementNode ''a''
          [\<lparr>Namespace = [], Key = ''href'', Val = ''x''\<rparr>] []" "''href''" "''y''"]
        attr_helpers_roundtrip [of "Node ElementNode ''a'' [] []" "''rel''" "''z''"]
        attr_helpers_roundtrip [of "Node ElementNode ''a'' [] []" "''href''" "''y''"]
  by simp


section \<open>Equations of the walk\<close>

lemma walkNodes_Nil: "walkNodes L p [] d = Some []"
  by (subst walkNodes.simps) simp

lemma walk_Text:
  "Type n = TextNode \<Longrightarrow>
     walk L p n d = Some (if Linkify p then writeLinkedText L (Data n) else EscapeString (Data n))"
  unfolding walk_def by (subst walkNodes.simps) (simp add: walkNodes_Nil)

lemma walk_Comment: "Type n = CommentNode \<Longrightarrow> walk L p n d = Some []"
  unfolding walk_def by (subst walkNodes.simps) (simp add: walkNodes_Nil)

lemma walk_Doctype: "Type n = DoctypeNode \<Longrightarrow> walk L p n d = Some []"
  unfolding walk_def by (subst walkNodes.simps) (simp add: walkNodes_Nil)

lemma walk_Document: "Type n = DocumentNode \<Longrightarrow> walk L p n d = walkNodes L p (Children n) d"
  unfolding walk_def by (subst walkNodes.simps) (simp add: walkNodes_Nil)

lemma walk_other:
  "Type n = ErrorNode \<or> Type n = RawNode \<Longrightarrow> walk L p n d = walkNodes L p (Children n) d"
  unfolding walk_def by (subst walkNodes.simps) (auto simp add: walkNodes_Nil)

lemma walk_Element:
  "Type n = ElementNode \<Longrightarrow>
     walk L p n d =
                 (let tag = ToLower L (Data n);
                      tooDeep = (MaxDepth p > 0 \<and> d > MaxDepth p);
                      allowed = (tag \<in> sliceToSet L (AllowedTags p) \<and> \<not> tooDeep)
                  in if allowed then
                       (case runTransformers (Transformers p)
                               (Node (Type n) (Data n)
                                  (filterAttrs L (Attr n) tag (AllowedAttributes p)
                                     (sliceToSet L (AllowedSchemes p)))
                                  (Children n)) of
                          None \<Rightarrow> Some []
                        | Some n1 \<Rightarrow>
                            if isVoidElement tag then Some (writeOpen tag (Attr n1) @ '' />'')
                            else Option.bind (walkNodes L p (Children n1) (d + 1))
                                   (\<lambda>inner. Some (writeOpen tag (Attr n1) @ ''>'' @ inner
                                                    @ ''</'' @ tag @ ''>'')))
                     else if StripDisallowed p then Some []
                     else Option.bind (walkNodes L p (Children n) (d + 1))
                            (\<lambda>inner. Some (EscapeString (renderOpenTag n) @ inner
                                @ (if \<not> isVoidElement tag
                                   then EscapeString (''</'' @ tag @ ''>'') else []))))"
  unfolding walk_def by (subst walkNodes.simps) (simp add: walkNodes_Nil)

lemma walkNodes_Cons:
  "walkNodes L p (n # rest) d =
     Option.bind (walk L p n d)
       (\<lambda>out. Option.bind (walkNodes L p rest d) (\<lambda>outs. Some (out @ outs)))"
  unfolding walk_def
  by (subst walkNodes.simps, subst (2) walkNodes.simps) (simp add: walkNodes_Nil)

lemma walkNodes_append:
  "walkNodes L p (ms @ ns) d =
     Option.bind (walkNodes L p ms d)
       (\<lambda>a. Option.bind (walkNodes L p ns d) (\<lambda>b. Some (a @ b)))"
proof (induction ms)
  case Nil
  show ?case by (cases "walkNodes L p ns d") (simp_all add: walkNodes_Nil)
next
  case (Cons m ms)
  show ?case
    by (cases "walk L p m d"; cases "walkNodes L p ms d"; cases "walkNodes L p ns d")
       (simp_all add: walkNodes_Cons Cons.IH)
qed

text \<open>An allowed element when no transformer is configured, and a disallowed element.\<close>

lemma walk_allowed_plain:
  assumes "Type n = ElementNode" "ToLower L (Data n) \<in> sliceToSet L (AllowedTags p)"
    "\<not> (MaxDepth p > 0 \<and> d > MaxDepth p)" "Transformers p = []"
  shows "walk L p n d =
     (if isVoidElement (ToLower L (Data n))
      then Some (writeOpen (ToLower L (Data n))
                  (filterAttrs L (Attr n) (ToLower L (Data n)) (AllowedAttributes p)
                     (sliceToSet L (AllowedSchemes p))) @ '' />'')
      else Option.bind (walkNodes L p (Children n) (d + 1))
             (\<lambda>inner. Some (writeOpen (ToLower L (Data n))
                  (filterAttrs L (Attr n) (ToLower L (Data n)) (AllowedAttributes p)
                     (sliceToSet L (AllowedSchemes p))) @ ''>'' @ inner
                                                    @ ''</'' @ ToLower L (Data n) @ ''>'')))"
  using assms by (simp add: walk_Element Let_def)

lemma walk_disallowed:
  assumes "Type n = ElementNode"
    "ToLower L (Data n) \<notin> sliceToSet L (AllowedTags p) \<or> (MaxDepth p > 0 \<and> d > MaxDepth p)"
  shows "walk L p n d =
     (if StripDisallowed p then Some []
      else Option.bind (walkNodes L p (Children n) (d + 1))
                            (\<lambda>inner. Some (EscapeString (renderOpenTag n) @ inner
                                @ (if \<not> isVoidElement (ToLower L (Data n))
                                   then EscapeString (''</'' @ ToLower L (Data n) @ ''>'') else []))))"
  using assms by (auto simp add: walk_Element Let_def)

subsection \<open>Without transformers the walk returns\<close>

lemma walkNodes_total_list:
  "(\<And>n d. n \<in> set ns \<Longrightarrow> \<exists>out. walk L p n d = Some out) \<Longrightarrow> \<exists>out. walkNodes L p ns d = Some out"
proof (induction ns)
  case Nil
  show ?case by (simp add: walkNodes_Nil)
next
  case (Cons n ns)
  obtain a where a: "walk L p n d = Some a" using Cons.prems [of n d] by auto
  obtain b where b: "walkNodes L p ns d = Some b" using Cons.IH Cons.prems by fastforce
  show ?case by (simp add: walkNodes_Cons a b)
qed

lemma walk_total:
  assumes "Transformers p = []"
  shows "\<exists>out. walk L p n d = Some out"
proof (induction n arbitrary: d)
  case (Node ty dat as cs)
  have kids: "\<exists>out. walkNodes L p cs e = Some out" for e
    by (rule walkNodes_total_list) (use Node.IH in blast)
  show ?case
  proof (cases ty)
    case ElementNode
    obtain a where a: "walkNodes L p cs (d + 1) = Some a" using kids by blast
    show ?thesis using ElementNode assms a by (simp add: walk_Element Let_def)
  qed (use kids in \<open>simp_all add: walk_Text walk_Comment walk_Doctype walk_Document walk_other\<close>)
qed

lemma walkNodes_total:
  "Transformers p = [] \<Longrightarrow> \<exists>out. walkNodes L p ns d = Some out"
  by (rule walkNodes_total_list) (rule walk_total)


section \<open>Sanitized form\<close>
















lemma EscapeString_append: "EscapeString (a @ b) = EscapeString a @ EscapeString b"
  by (simp add: EscapeString_def)





section \<open>Facts for evaluating the examples\<close>

lemma Default_fields:
  "StripDisallowed DefaultPolicy = False" "Transformers DefaultPolicy = []"
  "Linkify DefaultPolicy = False" "MaxDepth DefaultPolicy = 0"
  "AllowedSchemes DefaultPolicy = [''http'', ''https'', ''mailto'']"
  by (simp_all add: DefaultPolicy_def)

lemma Default_tags:
  "sliceToSet L (AllowedTags DefaultPolicy) = set
       [''h1'', ''h2'', ''h3'', ''h4'', ''h5'', ''h6'',
        ''p'', ''br'', ''hr'',
        ''b'', ''i'', ''em'', ''strong'', ''u'', ''s'', ''strike'', ''del'', ''ins'',
        ''a'', ''img'',
        ''ul'', ''ol'', ''li'',
        ''table'', ''thead'', ''tbody'', ''tfoot'', ''tr'', ''th'', ''td'',
        ''code'', ''pre'', ''kbd'', ''samp'',
        ''blockquote'', ''cite'', ''q'',
        ''figure'', ''figcaption'',
        ''div'', ''span'', ''section'', ''article'', ''header'', ''footer'',
        ''details'', ''summary'',
        ''abbr'', ''acronym'', ''address'',
        ''sup'', ''sub'']"
  by (simp add: DefaultPolicy_def sliceToSet_def ToLower_def isASCII_def ToLowerChar_def
      lowerTable_def)

lemma exampleLib_fields: "html_Parse exampleLib = exampleParse" "url_Parse exampleLib = exampleURL"
  by (simp_all add: exampleLib_def)

lemmas eval_simps = Let_def ToLower_def isASCII_def ToLowerChar_def lowerTable_def isVoidElement_def
  EscapeString_def escapeChar_def renderOpenTag_def renderAttr_def writeOpen_def
  walkNodes_Cons walkNodes_Nil walk_Text walk_Element walk_Comment walk_Doctype walk_Document
  textNode_def element_def attr_def


section \<open>Sanitizing a parsed document\<close>

lemma findBody_document: "findBody (document ns) = Some (Node ElementNode ''body'' [] ns)"
  by (simp add: findBody_def document_def)

lemma Sanitize_document:
  "html_Parse L s = Inr (document ns) \<Longrightarrow>
     Sanitize L s (Some p) = map_option Inr (walkNodes L p ns 1)"
  by (simp add: Sanitize_def SanitizeReader_def findBody_document)

lemma StripTags_document:
  "html_Parse L s = Inr (document ns) \<Longrightarrow> StripTags L s = Inr (textWalkList ns)"
  by (simp add: StripTags_def findBody_document)

section \<open>Text of a subtree when nothing is stripped or vetoed\<close>

lemma sublist_in_context: "sublist xs ys \<Longrightarrow> sublist xs (a @ ys @ b)"
proof -
  assume "sublist xs ys"
  then obtain ps ss where "ys = ps @ xs @ ss" by (auto simp: sublist_def)
  then have "a @ ys @ b = (a @ ps) @ xs @ (ss @ b)" by simp
  then show ?thesis unfolding sublist_def by blast
qed

lemma sublist_left: "sublist xs ys \<Longrightarrow> sublist xs (ys @ b)"
  using sublist_in_context [of xs ys "[]" b] by simp

lemma sublist_right: "sublist xs ys \<Longrightarrow> sublist xs (a @ ys)"
  using sublist_in_context [of xs ys a "[]"] by simp

lemma walkNodes_texts_present_list:
  assumes "\<And>n d. n \<in> set ns \<Longrightarrow>
      \<exists>out. walk L p n d = Some out \<and> (\<forall>t \<in> set (subtreeTexts L n). sublist (emitText L p t) out)"
  shows "\<exists>out. walkNodes L p ns d = Some out
      \<and> (\<forall>t \<in> set (subtreeTextsList L ns). sublist (emitText L p t) out)"
  using assms
proof (induction ns)
  case Nil
  show ?case by (simp add: walkNodes_Nil)
next
  case (Cons n ns)
  obtain a where a: "walk L p n d = Some a"
      "\<forall>t \<in> set (subtreeTexts L n). sublist (emitText L p t) a"
    using Cons.prems [of n d] by auto
  obtain b where b: "walkNodes L p ns d = Some b"
      "\<forall>t \<in> set (subtreeTextsList L ns). sublist (emitText L p t) b"
    using Cons.IH Cons.prems by fastforce
  have "walkNodes L p (n # ns) d = Some (a @ b)" by (simp add: walkNodes_Cons a b)
  moreover have "\<forall>t \<in> set (subtreeTextsList L (n # ns)). sublist (emitText L p t) (a @ b)"
    using a(2) b(2) by (auto intro: sublist_left sublist_right)
  ultimately show ?case by blast
qed

lemma walk_texts_present:
  assumes "Transformers p = []" "\<not> StripDisallowed p"
  shows "\<exists>out. walk L p n d = Some out \<and> (\<forall>t \<in> set (subtreeTexts L n). sublist (emitText L p t) out)"
proof (induction n arbitrary: d)
  case (Node ty dat as cs)
  have kids: "\<exists>out. walkNodes L p cs e = Some out
      \<and> (\<forall>t \<in> set (subtreeTextsList L cs). sublist (emitText L p t) out)" for e
    by (rule walkNodes_texts_present_list) (use Node.IH in blast)
  show ?case
  proof (cases ty)
    case TextNode
    then show ?thesis by (simp add: walk_Text emitText_def)
  next
    case ElementNode
    obtain inner where inner: "walkNodes L p cs (d + 1) = Some inner"
      "\<forall>t \<in> set (subtreeTextsList L cs). sublist (emitText L p t) inner"
      using kids [of "d + 1"] by blast
    show ?thesis
    proof (cases "ToLower L dat \<in> sliceToSet L (AllowedTags p) \<and> \<not> (MaxDepth p > 0 \<and> d > MaxDepth p)")
      case True
      let ?open = "writeOpen (ToLower L dat)
          (filterAttrs L as (ToLower L dat) (AllowedAttributes p) (sliceToSet L (AllowedSchemes p)))"
      show ?thesis
      proof (cases "isVoidElement (ToLower L dat)")
        case void: True
        with True ElementNode assms(1) show ?thesis by (simp add: walk_allowed_plain)
      next
        case nonvoid: False
        have w: "walk L p (Node ty dat as cs) d
            = Some ((?open @ ''>'') @ inner @ (''</'' @ ToLower L dat @ ''>''))"
          using True ElementNode assms(1) inner(1) nonvoid by (simp add: walk_allowed_plain)
        have "\<forall>t \<in> set (subtreeTextsList L cs).
            sublist (emitText L p t) ((?open @ ''>'') @ inner @ (''</'' @ ToLower L dat @ ''>''))"
          using inner(2) sublist_in_context by blast
        with w ElementNode nonvoid show ?thesis by simp
      qed
    next
      case False
      then have dis: "ToLower L (Data (Node ty dat as cs)) \<notin> sliceToSet L (AllowedTags p)
          \<or> (MaxDepth p > 0 \<and> d > MaxDepth p)" by auto
      define cl where "cl = (if \<not> isVoidElement (ToLower L dat)
                    then EscapeString (''</'' @ ToLower L dat @ ''>'') else [])"
      have w: "walk L p (Node ty dat as cs) d =
          Some (EscapeString (renderOpenTag (Node ty dat as cs)) @ inner @ cl)"
        unfolding cl_def
        using walk_disallowed [OF _ dis] ElementNode assms(2) inner(1) by simp
      have "\<forall>t \<in> set (subtreeTextsList L cs).
          sublist (emitText L p t) (EscapeString (renderOpenTag (Node ty dat as cs)) @ inner @ cl)"
        using inner(2) sublist_in_context by blast
      moreover have "set (subtreeTexts L (Node ty dat as cs)) \<subseteq> set (subtreeTextsList L cs)"
        using ElementNode by simp
      ultimately show ?thesis using w by blast
    qed
  next
    case DocumentNode
    then show ?thesis using kids [of d] by (simp add: walk_Document)
  next
    case ErrorNode
    then show ?thesis using kids [of d] by (simp add: walk_other)
  next
    case RawNode
    then show ?thesis using kids [of d] by (simp add: walk_other)
  qed (simp_all add: walk_Comment walk_Doctype)
qed

lemma EscapeString_no_angle:
  "CHR ''<'' \<notin> set (EscapeString s) \<and> CHR ''>'' \<notin> set (EscapeString s)"
  by (induction s) (auto simp: EscapeString_def escapeChar_def)

lemma walk_disallowed_texts:
  assumes "Type n = ElementNode"
    and "ToLower L (Data n) \<notin> sliceToSet L (AllowedTags p) \<or> (MaxDepth p > 0 \<and> d > MaxDepth p)"
    and "\<not> StripDisallowed p" and "Transformers p = []"
  shows "\<exists>out. walk L p n d = Some out
            \<and> (\<forall>t \<in> set (subtreeTextsList L (Children n)). sublist (emitText L p t) out)"
proof -
  have "\<exists>out. walkNodes L p (Children n) (d + 1) = Some out
      \<and> (\<forall>t \<in> set (subtreeTextsList L (Children n)). sublist (emitText L p t) out)"
    by (rule walkNodes_texts_present_list) (use assms walk_texts_present in blast)
  then obtain inner where inner: "walkNodes L p (Children n) (d + 1) = Some inner"
      "\<forall>t \<in> set (subtreeTextsList L (Children n)). sublist (emitText L p t) inner"
    by blast
  have "walk L p n d = Some (EscapeString (renderOpenTag n) @ inner
                 @ (if \<not> isVoidElement (ToLower L (Data n))
                    then EscapeString (''</'' @ ToLower L (Data n) @ ''>'') else []))"
    using assms inner(1) by (simp add: walk_disallowed)
  moreover have "\<forall>t \<in> set (subtreeTextsList L (Children n)).
      sublist (emitText L p t) (EscapeString (renderOpenTag n) @ inner
                 @ (if \<not> isVoidElement (ToLower L (Data n))
                    then EscapeString (''</'' @ ToLower L (Data n) @ ''>'') else []))"
    using inner(2) sublist_in_context by blast
  ultimately show ?thesis by blast
qed

section \<open>Comments and doctypes\<close>

lemma stripComments_sel:
  "Type (stripComments n) = Type n" "Data (stripComments n) = Data n"
  "Attr (stripComments n) = Attr n" "Children (stripComments n) = stripCommentsList (Children n)"
  by (cases n; simp)+

lemma walkNodes_skip:
  "walk L p c d = Some [] \<Longrightarrow> walkNodes L p (c # cs) d = walkNodes L p cs d"
  by (cases "walkNodes L p cs d") (simp_all add: walkNodes_Cons)

lemma walkNodes_strip_list:
  assumes "\<And>c e. c \<in> set cs \<Longrightarrow> walk L p (stripComments c) e = walk L p c e"
  shows "walkNodes L p (stripCommentsList cs) d = walkNodes L p cs d"
  using assms
proof (induction cs)
  case Nil
  show ?case by simp
next
  case (Cons c cs)
  have IH: "walkNodes L p (stripCommentsList cs) d = walkNodes L p cs d"
    using Cons by simp
  show ?case
  proof (cases "Type c = CommentNode \<or> Type c = DoctypeNode")
    case True
    then have "walk L p c d = Some []" by (auto simp: walk_Comment walk_Doctype)
    with True IH show ?thesis by (simp add: walkNodes_skip)
  next
    case False
    have "walk L p (stripComments c) d = walk L p c d" using Cons.prems by simp
    with False IH show ?thesis by (simp add: walkNodes_Cons)
  qed
qed

lemma walk_strip:
  assumes "Transformers p = []"
  shows "walk L p (stripComments n) d = walk L p n d"
proof (induction n arbitrary: d)
  case (Node ty dat as cs)
  have kids: "walkNodes L p (stripCommentsList cs) e = walkNodes L p cs e" for e
    by (rule walkNodes_strip_list) (use Node.IH in blast)
  show ?case
  proof (cases ty)
    case ElementNode
    then show ?thesis using assms kids [of "d + 1"]
      by (auto simp add: walk_Element Let_def renderOpenTag_def)
  qed (use kids [of d] in \<open>simp_all add: walk_Text walk_Comment walk_Doctype walk_Document walk_other\<close>)
qed

lemma walkNodes_strip:
  "Transformers p = [] \<Longrightarrow> walkNodes L p (stripCommentsList ns) d = walkNodes L p ns d"
  by (rule walkNodes_strip_list) (rule walk_strip)

lemma find_strip:
  "(commentsAreLeaves n \<longrightarrow> find (stripComments n) = map_option stripComments (find n))"
  "(commentsAreLeavesList cs \<longrightarrow>
      findIn (stripCommentsList cs) = map_option stripComments (findIn cs))"
proof (induction n and cs rule: find_findIn.induct)
  case (1 ty d as cs)
  then show ?case by (auto split: if_splits)
next
  case 2
  show ?case by simp
next
  case (3 c cs)
  show ?case
  proof (intro impI)
    assume a: "commentsAreLeavesList (c # cs)"
    show "findIn (stripCommentsList (c # cs)) = map_option stripComments (findIn (c # cs))"
    proof (cases "Type c = CommentNode \<or> Type c = DoctypeNode")
      case True
      with a have "find c = None" by (cases c) auto
      with True a 3 show ?thesis by simp
    next
      case False
      with a 3 show ?thesis by (cases "find c") auto
    qed
  qed
qed

lemma parse_comment:
  "html_Parse exampleLib ''<b><!--secret--></b>'' =
     Inr (document [element ''b'' [] [Node CommentNode ''secret'' [] []]])"
  by (simp add: exampleLib_fields exampleParse_def exampleTrees_def)

lemma parse_empty_b:
  "html_Parse exampleLib ''<b></b>'' = Inr (document [element ''b'' [] []])"
  by (simp add: exampleLib_fields exampleParse_def exampleTrees_def)

theorem retyped_comment_counterexample:
  "Sanitize exampleLib ''<b><!--secret--></b>''
      (Some (DefaultPolicy\<lparr>Transformers := [retypeComments]\<rparr>))
    = Some (Inr ''<b>secret</b>'')"
  by (simp add: Sanitize_document [OF parse_comment] Default_fields Default_tags eval_simps
      retypeComments_def)

text \<open>
  Claim C9, as amended. For every policy and depth the walk writes nothing for a comment
  node and nothing for a doctype node, whatever their children are. When no transformer
  is configured, no comment or doctype content reaches the output at any nesting
  position: a chain of siblings gives the same output with all its comment and doctype
  nodes removed, at every level, and \<open>Sanitize\<close> returns for an input what it returns
  for an input whose tree is the same without these nodes (the comments and doctypes of
  the tree being leaves, as the parser builds them).
\<close>

theorem comments_never_reach_output:
  "walk L p (Node CommentNode dat as cs) d = Some []
   \<and> walk L p (Node DoctypeNode dat as cs) d = Some []
   \<and> (Transformers p = [] \<longrightarrow>
        walkNodes L p (stripCommentsList ns) d = walkNodes L p ns d)
   \<and> (Transformers p = [] \<and> commentsAreLeaves doc
        \<and> html_Parse L s = Inr doc \<and> html_Parse L s2 = Inr (stripComments doc)
        \<longrightarrow> Sanitize L s2 (Some p) = Sanitize L s (Some p))"
proof (intro conjI impI)
  assume a: "Transformers p = [] \<and> commentsAreLeaves doc
        \<and> html_Parse L s = Inr doc \<and> html_Parse L s2 = Inr (stripComments doc)"
  then have fb: "findBody (stripComments doc) = map_option stripComments (findBody doc)"
    by (simp add: findBody_def find_strip)
  show "Sanitize L s2 (Some p) = Sanitize L s (Some p)"
  proof (cases "findBody doc")
    case None
    with a fb show ?thesis
      by (simp add: Sanitize_def SanitizeReader_def walk_strip)
  next
    case (Some body)
    with a fb show ?thesis
      by (simp add: Sanitize_def SanitizeReader_def stripComments_sel walkNodes_strip)
  qed
qed (simp_all add: walk_Comment walk_Doctype walkNodes_strip)


theorem comments_never_reach_output_witness:
  "Sanitize exampleLib ''<b></b>'' (Some DefaultPolicy) = Some (Inr ''<b></b>'')
   \<and> Sanitize exampleLib ''<b><!--secret--></b>'' (Some DefaultPolicy) = Some (Inr ''<b></b>'')"
proof -
  let ?doc = "document [element ''b'' [] [Node CommentNode ''secret'' [] []]]"
  have leaves: "commentsAreLeaves ?doc" by (simp add: document_def element_def)
  have s2: "html_Parse exampleLib ''<b></b>'' = Inr (stripComments ?doc)"
    by (simp add: parse_empty_b document_def element_def)
  have t: "Transformers DefaultPolicy = []" by (simp add: Default_fields)
  have eq: "Sanitize exampleLib ''<b></b>'' (Some DefaultPolicy)
      = Sanitize exampleLib ''<b><!--secret--></b>'' (Some DefaultPolicy)"
    using comments_never_reach_output [of exampleLib DefaultPolicy _ _ _ _ _ ?doc
        "''<b><!--secret--></b>''" "''<b></b>''"] t leaves parse_comment s2
    by blast
  have "Sanitize exampleLib ''<b></b>'' (Some DefaultPolicy) = Some (Inr ''<b></b>'')"
    by (simp add: Sanitize_document [OF parse_empty_b] Default_fields Default_tags eval_simps)
  with eq show ?thesis by simp
qed

section \<open>The transformer pipeline\<close>

lemma runTransformers_append:
  "runTransformers (ts @ us) m = Option.bind (runTransformers ts m) (runTransformers us)"
  by (induction ts arbitrary: m) (simp_all split: option.splits)

text \<open>
  Claim C6. For an allowed element (allowed tag, within the depth limit) the walk first
  filters the attributes, then runs the transformers on the filtered node, and writes
  output only from the node they return. The transformers run in list order: running
  \<open>ts @ t # us\<close> is running \<open>ts\<close>, then \<open>t\<close>, then \<open>us\<close>, each on the result of
  the one before, and a nil result ends the run. When a transformer of the list returns
  nil, whatever stands after it in the list, the walk writes nothing for the node or
  its descendants.
\<close>

theorem transformers_in_order_and_veto:
  assumes "Type n = ElementNode"
    and "ToLower L (Data n) \<in> sliceToSet L (AllowedTags p)"
    and "\<not> (MaxDepth p > 0 \<and> d > MaxDepth p)"
  shows "walk L p n d =
      (case runTransformers (Transformers p)
              (Node (Type n) (Data n)
                 (filterAttrs L (Attr n) (ToLower L (Data n)) (AllowedAttributes p)
                    (sliceToSet L (AllowedSchemes p)))
                 (Children n)) of
         None \<Rightarrow> Some []
       | Some n1 \<Rightarrow>
           if isVoidElement (ToLower L (Data n))
           then Some (writeOpen (ToLower L (Data n)) (Attr n1) @ '' />'')
           else Option.bind (walkNodes L p (Children n1) (d + 1))
                  (\<lambda>inner. Some (writeOpen (ToLower L (Data n)) (Attr n1) @ ''>'' @ inner
                                   @ ''</'' @ ToLower L (Data n) @ ''>'')))
    \<and> (\<forall>ts t us m. runTransformers (ts @ t # us) m =
          Option.bind (runTransformers ts m) (\<lambda>m1. Option.bind (t m1) (runTransformers us)))
    \<and> (\<forall>ts t us m. Transformers p = ts @ t # us
          \<and> runTransformers ts
               (Node (Type n) (Data n)
                  (filterAttrs L (Attr n) (ToLower L (Data n)) (AllowedAttributes p)
                     (sliceToSet L (AllowedSchemes p)))
                  (Children n)) = Some m
          \<and> t m = None
          \<longrightarrow> walk L p n d = Some [])"
proof -
  have order: "runTransformers (ts @ t # us) m =
      Option.bind (runTransformers ts m) (\<lambda>m1. Option.bind (t m1) (runTransformers us))"
    for ts t us m
    by (cases "runTransformers ts m") (simp_all add: runTransformers_append split: option.splits)
  have w: "walk L p n d =
      (case runTransformers (Transformers p)
              (Node (Type n) (Data n)
                 (filterAttrs L (Attr n) (ToLower L (Data n)) (AllowedAttributes p)
                    (sliceToSet L (AllowedSchemes p)))
                 (Children n)) of
         None \<Rightarrow> Some []
       | Some n1 \<Rightarrow>
           if isVoidElement (ToLower L (Data n))
           then Some (writeOpen (ToLower L (Data n)) (Attr n1) @ '' />'')
           else Option.bind (walkNodes L p (Children n1) (d + 1))
                  (\<lambda>inner. Some (writeOpen (ToLower L (Data n)) (Attr n1) @ ''>'' @ inner
                                   @ ''</'' @ ToLower L (Data n) @ ''>'')))"
    using assms by (simp add: walk_Element Let_def)
  have veto: "walk L p n d = Some []"
    if "Transformers p = ts @ t # us"
      and "runTransformers ts
               (Node (Type n) (Data n)
                  (filterAttrs L (Attr n) (ToLower L (Data n)) (AllowedAttributes p)
                     (sliceToSet L (AllowedSchemes p)))
                  (Children n)) = Some m"
      and "t m = None" for ts t us m
    unfolding w using that by (simp add: order)
  from w order veto show ?thesis by blast
qed


theorem transformers_in_order_and_veto_witness:
  \<open>walk exampleLib (DefaultPolicy\<lparr>Transformers := [addHref, vetoBold, addHref]\<rparr>)
      (element ''b'' [] [textNode ''t'']) 1 = Some []
   \<and> walk exampleLib (emptyPolicy\<lparr>AllowedTags := [''i''],
          Transformers := [addHref, (\<lambda>n. Some (RemoveAttr n ''href''))]\<rparr>)
      (element ''i'' [] [textNode ''t'']) 1 = Some ''<i>t</i>''
   \<and> walk exampleLib (emptyPolicy\<lparr>AllowedTags := [''i''],
          Transformers := [(\<lambda>n. Some (RemoveAttr n ''href'')), addHref]\<rparr>)
      (element ''i'' [] [textNode ''t'']) 1 = Some ''<i href="javascript:alert(1)">t</i>''\<close>
proof -
  let ?P = "DefaultPolicy\<lparr>Transformers := [addHref, vetoBold, addHref]\<rparr>"
  let ?n = "element ''b'' [] [textNode ''t'']"
  have h1: "Type ?n = ElementNode" by (simp add: element_def)
  have h2: "ToLower exampleLib (Data ?n) \<in> sliceToSet exampleLib (AllowedTags ?P)"
    by (simp add: element_def Default_tags ToLower_def isASCII_def ToLowerChar_def lowerTable_def)
  have h3: "\<not> (MaxDepth ?P > 0 \<and> 1 > MaxDepth ?P)" by (simp add: Default_fields)
  have r: "runTransformers [addHref]
      (Node (Type ?n) (Data ?n)
         (filterAttrs exampleLib (Attr ?n) (ToLower exampleLib (Data ?n)) (AllowedAttributes ?P)
            (sliceToSet exampleLib (AllowedSchemes ?P)))
         (Children ?n))
      = Some (Node ElementNode ''b'' [attr ''href'' ''javascript:alert(1)''] [textNode ''t''])"
    by (simp add: element_def addHref_def SetAttr_def attr_def)
  have v: "vetoBold (Node ElementNode ''b'' [attr ''href'' ''javascript:alert(1)''] [textNode ''t''])
      = None"
    by (simp add: vetoBold_def)
  have t: "Transformers ?P = [addHref] @ vetoBold # [addHref]" by simp
  have a: "walk exampleLib ?P ?n 1 = Some []"
    using transformers_in_order_and_veto [OF h1 h2 h3] t r v by blast
  let ?Q = "emptyPolicy\<lparr>AllowedTags := [''i''],
          Transformers := [addHref, (\<lambda>n. Some (RemoveAttr n ''href''))]\<rparr>"
  let ?R = "emptyPolicy\<lparr>AllowedTags := [''i''],
          Transformers := [(\<lambda>n. Some (RemoveAttr n ''href'')), addHref]\<rparr>"
  let ?m = "element ''i'' [] [textNode ''t'']"
  have k1: "Type ?m = ElementNode" by (simp add: element_def)
  have k2: "ToLower exampleLib (Data ?m) \<in> sliceToSet exampleLib (AllowedTags ?Q)"
    "ToLower exampleLib (Data ?m) \<in> sliceToSet exampleLib (AllowedTags ?R)"
    by (simp_all add: element_def sliceToSet_def ToLower_def isASCII_def ToLowerChar_def
        lowerTable_def)
  have k3: "\<not> (MaxDepth ?Q > 0 \<and> 1 > MaxDepth ?Q)" "\<not> (MaxDepth ?R > 0 \<and> 1 > MaxDepth ?R)"
    by (simp_all add: emptyPolicy_def)
  have b: \<open>walk exampleLib ?Q ?m 1 = Some ''<i>t</i>''\<close>
    using transformers_in_order_and_veto [OF k1 k2(1) k3(1)]
    by (simp add: addHref_def SetAttr_def RemoveAttr_def eval_simps sliceToSet_def emptyPolicy_def)
  have c: \<open>walk exampleLib ?R ?m 1 = Some ''<i href="javascript:alert(1)">t</i>''\<close>
    using transformers_in_order_and_veto [OF k1 k2(2) k3(2)]
    by (simp add: addHref_def SetAttr_def RemoveAttr_def eval_simps sliceToSet_def emptyPolicy_def)
  from a b c show ?thesis by blast
qed


section \<open>Depth limit\<close>

lemma parse_deep:
  "html_Parse exampleLib ''<div><div><div><b>deep</b></div></div></div>'' =
     Inr (document [element ''div'' [] [element ''div'' [] [element ''div'' []
            [element ''b'' [] [textNode ''deep'']]]]])"
  by (simp add: exampleLib_fields exampleParse_def exampleTrees_def)

theorem maxDepth_escape_counterexample:
  "Sanitize exampleLib ''<div><div><div><b>deep</b></div></div></div>''
      (Some (DefaultPolicy\<lparr>MaxDepth := 2\<rparr>))
    = Some (Inr ''<div><div>&lt;div&gt;&lt;b&gt;deep&lt;/b&gt;&lt;/div&gt;</div></div>'')
   \<and> sublist ''deep'' ''<div><div>&lt;div&gt;&lt;b&gt;deep&lt;/b&gt;&lt;/div&gt;</div></div>''"
proof -
  have "''<div><div>&lt;div&gt;&lt;b&gt;deep&lt;/b&gt;&lt;/div&gt;</div></div>''
      = ''<div><div>&lt;div&gt;&lt;b&gt;'' @ ''deep'' @ ''&lt;/b&gt;&lt;/div&gt;</div></div>''"
    by simp
  then have "sublist ''deep'' ''<div><div>&lt;div&gt;&lt;b&gt;deep&lt;/b&gt;&lt;/div&gt;</div></div>''"
    by (simp only: sublist_appendI)
  then show ?thesis
    by (simp add: Sanitize_document [OF parse_deep] Default_fields Default_tags eval_simps)
qed

text \<open>
  Claim C3, as amended. With \<open>MaxDepth = N > 0\<close> an element at a depth above \<open>N\<close> is
  handled as a disallowed element: when \<open>StripDisallowed\<close> is set nothing is written for
  it or its subtree; otherwise its tags are written as escaped text around the output
  of its children, which are still walked, and when moreover no transformer is
  configured every text node of its subtree that does not lie beneath a void element, a
  comment or a doctype is in the output. An element with an allowed tag at a depth of
  at most \<open>N\<close> that no transformer removes is written as a live element around the
  output of its children.
\<close>

theorem maxDepth_enforced:
  assumes "0 < MaxDepth p" and "Type n = ElementNode"
  shows "(MaxDepth p < d \<and> StripDisallowed p \<longrightarrow> walk L p n d = Some [])
    \<and> (MaxDepth p < d \<and> \<not> StripDisallowed p \<longrightarrow>
         walk L p n d =
           Option.bind (walkNodes L p (Children n) (d + 1))
             (\<lambda>inner. Some (EscapeString (renderOpenTag n) @ inner
                 @ (if \<not> isVoidElement (ToLower L (Data n))
                    then EscapeString (''</'' @ ToLower L (Data n) @ ''>'') else []))))
    \<and> (MaxDepth p < d \<and> \<not> StripDisallowed p \<and> Transformers p = [] \<longrightarrow>
         (\<exists>out. walk L p n d = Some out
            \<and> (\<forall>t \<in> set (subtreeTextsList L (Children n)). sublist (emitText L p t) out)))
    \<and> (d \<le> MaxDepth p \<and> ToLower L (Data n) \<in> sliceToSet L (AllowedTags p) \<longrightarrow>
         (\<forall>n1. runTransformers (Transformers p)
                 (Node (Type n) (Data n)
                    (filterAttrs L (Attr n) (ToLower L (Data n)) (AllowedAttributes p)
                       (sliceToSet L (AllowedSchemes p)))
                    (Children n)) = Some n1 \<longrightarrow>
            walk L p n d =
              (if isVoidElement (ToLower L (Data n))
               then Some (writeOpen (ToLower L (Data n)) (Attr n1) @ '' />'')
               else Option.bind (walkNodes L p (Children n1) (d + 1))
                      (\<lambda>inner. Some (writeOpen (ToLower L (Data n)) (Attr n1) @ ''>'' @ inner
                                       @ ''</'' @ ToLower L (Data n) @ ''>'')))))"
proof (intro conjI impI allI)
  assume "MaxDepth p < d \<and> StripDisallowed p"
  with assms show "walk L p n d = Some []" by (simp add: walk_disallowed)
next
  assume "MaxDepth p < d \<and> \<not> StripDisallowed p"
  with assms show "walk L p n d =
           Option.bind (walkNodes L p (Children n) (d + 1))
             (\<lambda>inner. Some (EscapeString (renderOpenTag n) @ inner
                 @ (if \<not> isVoidElement (ToLower L (Data n))
                    then EscapeString (''</'' @ ToLower L (Data n) @ ''>'') else [])))"
    by (simp add: walk_disallowed)
next
  assume "MaxDepth p < d \<and> \<not> StripDisallowed p \<and> Transformers p = []"
  with assms show "\<exists>out. walk L p n d = Some out
            \<and> (\<forall>t \<in> set (subtreeTextsList L (Children n)). sublist (emitText L p t) out)"
    by (simp add: walk_disallowed_texts)
next
  fix n1
  assume a: "d \<le> MaxDepth p \<and> ToLower L (Data n) \<in> sliceToSet L (AllowedTags p)"
    and r: "runTransformers (Transformers p)
                 (Node (Type n) (Data n)
                    (filterAttrs L (Attr n) (ToLower L (Data n)) (AllowedAttributes p)
                       (sliceToSet L (AllowedSchemes p)))
                    (Children n)) = Some n1"
  from a have "\<not> (MaxDepth p > 0 \<and> d > MaxDepth p)" by simp
  with a r assms(2) show "walk L p n d =
              (if isVoidElement (ToLower L (Data n))
               then Some (writeOpen (ToLower L (Data n)) (Attr n1) @ '' />'')
               else Option.bind (walkNodes L p (Children n1) (d + 1))
                      (\<lambda>inner. Some (writeOpen (ToLower L (Data n)) (Attr n1) @ ''>'' @ inner
                                       @ ''</'' @ ToLower L (Data n) @ ''>'')))"
    by (simp add: walk_Element Let_def)
qed

theorem maxDepth_enforced_witness:
  "walk exampleLib (DefaultPolicy\<lparr>MaxDepth := 2, StripDisallowed := True\<rparr>)
      (element ''div'' [] [element ''b'' [] [textNode ''deep'']]) 3 = Some []
   \<and> walk exampleLib (DefaultPolicy\<lparr>MaxDepth := 2\<rparr>)
      (element ''div'' [] [element ''b'' [] [textNode ''deep'']]) 3
      = Some ''&lt;div&gt;&lt;b&gt;deep&lt;/b&gt;&lt;/div&gt;''
   \<and> sublist ''deep'' ''&lt;div&gt;&lt;b&gt;deep&lt;/b&gt;&lt;/div&gt;''
   \<and> walk exampleLib (DefaultPolicy\<lparr>MaxDepth := 2\<rparr>)
      (element ''div'' [] [textNode ''x'']) 2 = Some ''<div>x</div>''"
proof -
  let ?S = "DefaultPolicy\<lparr>MaxDepth := 2, StripDisallowed := True\<rparr>"
  let ?E = "DefaultPolicy\<lparr>MaxDepth := 2\<rparr>"
  let ?n = "element ''div'' [] [element ''b'' [] [textNode ''deep'']]"
  let ?m = "element ''div'' [] [textNode ''x'']"
  have a: "walk exampleLib ?S ?n 3 = Some []"
    using maxDepth_enforced [of ?S ?n 3 exampleLib] by (simp add: element_def)
  have kids: "walkNodes exampleLib ?E (Children ?n) (3 + 1) = Some ''&lt;b&gt;deep&lt;/b&gt;''"
    by (simp add: Default_fields Default_tags eval_simps)
  have b: "walk exampleLib ?E ?n 3 = Some ''&lt;div&gt;&lt;b&gt;deep&lt;/b&gt;&lt;/div&gt;''"
    using maxDepth_enforced [of ?E ?n 3 exampleLib] kids
    by (simp add: Default_fields Default_tags eval_simps)
  have c: "walk exampleLib ?E ?m 2 = Some ''<div>x</div>''"
    using maxDepth_enforced [of ?E ?m 2 exampleLib]
    by (simp add: Default_fields Default_tags eval_simps)
  obtain out where out: "walk exampleLib ?E ?n 3 = Some out"
      "\<forall>t \<in> set (subtreeTextsList exampleLib (Children ?n)).
         sublist (emitText exampleLib ?E t) out"
  proof -
    have prem: "0 < MaxDepth ?E" "Type ?n = ElementNode"
        "MaxDepth ?E < 3 \<and> \<not> StripDisallowed ?E \<and> Transformers ?E = []"
      by (simp_all add: element_def Default_fields)
    from maxDepth_enforced [OF prem(1,2), where d = 3 and L = exampleLib] prem(3)
    show ?thesis using that by blast
  qed
  from out(1) b have "out = ''&lt;div&gt;&lt;b&gt;deep&lt;/b&gt;&lt;/div&gt;''" by simp
  with out(2) have d: "sublist ''deep'' ''&lt;div&gt;&lt;b&gt;deep&lt;/b&gt;&lt;/div&gt;''"
    by (simp add: element_def textNode_def emitText_def Default_fields eval_simps)
  from a b c d show ?thesis by blast
qed

section \<open>The permissive preset on a script element\<close>

lemma parse_script:
  "html_Parse exampleLib ''<b>Hello</b> <script>alert('xss')</script>'' =
     Inr (document [element ''b'' [] [textNode ''Hello''], textNode '' '',
                    element ''script'' [] [textNode ''alert('xss')'']])"
  by (simp add: exampleLib_fields exampleParse_def exampleTrees_def)

text \<open>
  Claim C5. On the tree \<open>html.Parse\<close> builds for the input of the claim, the engine with
  \<open>DefaultPolicy\<close> does not return \<^verbatim>\<open><b>Hello</b> \<close>: \<open>StripDisallowed\<close> is false in
  that preset, so the tags of the script element are written escaped and its text is
  kept.
\<close>

theorem default_policy_escapes_script:
  assumes "html_Parse L ''<b>Hello</b> <script>alert('xss')</script>'' =
     Inr (document [element ''b'' [] [textNode ''Hello''], textNode '' '',
                    element ''script'' [] [textNode ''alert('xss')'']])"
  shows "Sanitize L ''<b>Hello</b> <script>alert('xss')</script>'' (Some DefaultPolicy)
    = Some (Inr ''<b>Hello</b> &lt;script&gt;alert(&#39;xss&#39;)&lt;/script&gt;'')"
  by (simp add: Sanitize_document [OF assms] Default_fields Default_tags eval_simps)

theorem default_policy_escapes_script_witness:
  "Sanitize exampleLib ''<b>Hello</b> <script>alert('xss')</script>'' (Some DefaultPolicy)
    = Some (Inr ''<b>Hello</b> &lt;script&gt;alert(&#39;xss&#39;)&lt;/script&gt;'')"
  using default_policy_escapes_script [OF parse_script] .

section \<open>A missing policy\<close>

lemma parse_bx:
  "html_Parse exampleLib ''<b>x</b>'' = Inr (document [element ''b'' [] [textNode ''x'']])"
  by (simp add: exampleLib_fields exampleParse_def exampleTrees_def)

lemma parse_x: "html_Parse exampleLib ''x'' = Inr (document [textNode ''x''])"
  by (simp add: exampleLib_fields exampleParse_def exampleTrees_def)

lemma parse_escaped_bx:
  "html_Parse exampleLib ''&lt;b&gt;x&lt;/b&gt;'' = Inr (document [textNode ''<b>x</b>''])"
  by (simp add: exampleLib_fields exampleParse_def exampleTrees_def)

lemma sanitize_bx_default:
  "Sanitize exampleLib ''<b>x</b>'' (Some DefaultPolicy) = Some (Inr ''<b>x</b>'')"
  by (simp add: Sanitize_document [OF parse_bx] Default_fields Default_tags eval_simps)

theorem empty_policy_counterexample:
  "Sanitize exampleLib ''<b>x</b>'' (Some emptyPolicy) = Some (Inr ''&lt;b&gt;x&lt;/b&gt;'')
   \<and> Sanitize exampleLib ''<b>x</b>'' (Some DefaultPolicy) = Some (Inr ''<b>x</b>'')
   \<and> Sanitize exampleLib ''<b>x</b>'' (Some emptyPolicy)
       \<noteq> Sanitize exampleLib ''<b>x</b>'' (Some DefaultPolicy)"
proof -
  have "Sanitize exampleLib ''<b>x</b>'' (Some emptyPolicy) = Some (Inr ''&lt;b&gt;x&lt;/b&gt;'')"
    by (simp add: Sanitize_document [OF parse_bx] emptyPolicy_def sliceToSet_def eval_simps)
  then show ?thesis by (simp add: sanitize_bx_default)
qed

text \<open>
  Claim C7, as amended. For every input, \<open>Sanitize\<close> with a nil policy returns what it
  returns with \<open>DefaultPolicy\<close>, and whenever the input parses this is an output, not an
  error. (An empty policy value is not replaced: it is used as it is.)
\<close>

theorem nil_policy_is_default:
  "Sanitize L s None = Sanitize L s (Some DefaultPolicy)
   \<and> (\<forall>doc. html_Parse L s = Inr doc \<longrightarrow> (\<exists>out. Sanitize L s None = Some (Inr out)))"
proof -
  have t: "Transformers DefaultPolicy = []" by (simp add: Default_fields)
  have "\<exists>out. Sanitize L s None = Some (Inr out)" if "html_Parse L s = Inr doc" for doc
  proof (cases "findBody doc")
    case None
    with that walk_total [OF t, of L doc 0] show ?thesis
      by (auto simp: Sanitize_def SanitizeReader_def)
  next
    case (Some body)
    with that walkNodes_total [OF t, of L "Children body" 1] show ?thesis
      by (auto simp: Sanitize_def SanitizeReader_def)
  qed
  then show ?thesis by (simp add: Sanitize_def SanitizeReader_def)
qed

theorem nil_policy_is_default_witness:
  "Sanitize exampleLib ''<b>x</b>'' None = Some (Inr ''<b>x</b>'')"
  using nil_policy_is_default [of exampleLib "''<b>x</b>''"] sanitize_bx_default by simp

section \<open>The text extractor applied twice\<close>

theorem stripTags_counterexample:
  "StripTags exampleLib ''&lt;b&gt;x&lt;/b&gt;'' = Inr ''<b>x</b>''
   \<and> StripTags exampleLib ''<b>x</b>'' = Inr ''x''"
  by (simp add: StripTags_document [OF parse_escaped_bx] StripTags_document [OF parse_bx]
      textNode_def element_def)

lemma textWalk_nodesOf:
  "textWalk n = concat (map Data (filter (\<lambda>m. Type m = TextNode) (nodesOf n)))"
  "textWalkList ns = concat (map Data (filter (\<lambda>m. Type m = TextNode) (nodesOfList ns)))"
  by (induction n and ns rule: textWalk_textWalkList.induct) simp_all

lemma StripTags_parsed:
  "html_Parse L s = Inr doc \<Longrightarrow>
     StripTags L s = Inr (textWalk (case findBody doc of Some body \<Rightarrow> body | None \<Rightarrow> doc))"
  by (simp add: StripTags_def split: option.splits)

text \<open>
  Claim C8, as amended. \<open>StripTags\<close> returns the contents of all text nodes in the
  subtree of the body (of the document when there is no body), concatenated in document
  order, as the parser decoded them and with nothing escaped again. With a parser that
  reads plain text as one text node below the body, \<open>StripTags\<close> applied to its own
  output returns that output unchanged whenever the output is plain text.
\<close>

theorem stripTags_text_content:
  assumes "html_Parse L s = Inr doc"
  shows "StripTags L s =
      Inr (concat (map Data (filter (\<lambda>m. Type m = TextNode)
             (nodesOf (case findBody doc of Some body \<Rightarrow> body | None \<Rightarrow> doc)))))
    \<and> ((\<forall>t. plainText t \<longrightarrow> html_Parse L t = Inr (document [textNode t])) \<longrightarrow>
         (\<forall>out. StripTags L s = Inr out \<and> plainText out \<longrightarrow> StripTags L out = Inr out))"
proof (intro conjI impI allI)
  show "StripTags L s =
      Inr (concat (map Data (filter (\<lambda>m. Type m = TextNode)
             (nodesOf (case findBody doc of Some body \<Rightarrow> body | None \<Rightarrow> doc)))))"
    using assms by (simp add: StripTags_parsed textWalk_nodesOf)
next
  fix out
  assume contract: "\<forall>t. plainText t \<longrightarrow> html_Parse L t = Inr (document [textNode t])"
    and out: "StripTags L s = Inr out \<and> plainText out"
  then have "html_Parse L out = Inr (document [textNode out])" by blast
  then show "StripTags L out = Inr out"
    by (simp add: StripTags_document textNode_def)
qed

theorem stripTags_text_content_witness:
  "StripTags plainTextLib ''<b>x</b>'' = Inr ''x'' \<and> StripTags plainTextLib ''x'' = Inr ''x''"
proof -
  have np: "\<not> plainText ''<b>x</b>''" by (simp add: plainText_def)
  have px: "plainText ''x''" by (simp add: plainText_def isSpace_def)
  have p1: "html_Parse plainTextLib ''<b>x</b>'' = Inr (document [element ''b'' [] [textNode ''x'']])"
    using np by (simp add: plainTextLib_def exampleParse_def exampleTrees_def)
  have contract: "\<forall>t. plainText t \<longrightarrow> html_Parse plainTextLib t = Inr (document [textNode t])"
    by (simp add: plainTextLib_def)
  have a: "StripTags plainTextLib ''<b>x</b>'' = Inr ''x''"
    using stripTags_text_content [OF p1]
    by (simp add: findBody_document element_def textNode_def)
  with stripTags_text_content [OF p1] contract px show ?thesis by blast
qed

section \<open>Disallowed elements: strip or escape\<close>

text \<open>
  Claim C2, as amended. For a disallowed element (tag not allowed, or too deep): when
  \<open>StripDisallowed\<close> is set, the walk writes nothing for the element or its subtree.
  Otherwise it writes the escaped open tag, then the output of the children walked one
  level deeper, then the escaped close tag (none for a void tag); the escaped tags hold
  no angle bracket. When moreover no transformer is configured, the walk returns and
  every text node of the subtree that does not lie beneath a void element, a comment or
  a doctype is in the output, escaped or linkified as text nodes are.
\<close>

theorem disallowed_strip_or_escape:
  assumes "Type n = ElementNode"
    and "ToLower L (Data n) \<notin> sliceToSet L (AllowedTags p) \<or> (MaxDepth p > 0 \<and> d > MaxDepth p)"
  shows "(StripDisallowed p \<longrightarrow> walk L p n d = Some [])
    \<and> (\<not> StripDisallowed p \<longrightarrow>
         walk L p n d =
           Option.bind (walkNodes L p (Children n) (d + 1))
             (\<lambda>inner. Some (EscapeString (renderOpenTag n) @ inner
                 @ (if \<not> isVoidElement (ToLower L (Data n))
                    then EscapeString (''</'' @ ToLower L (Data n) @ ''>'') else [])))
         \<and> CHR ''<'' \<notin> set (EscapeString (renderOpenTag n))
         \<and> CHR ''>'' \<notin> set (EscapeString (renderOpenTag n))
         \<and> CHR ''<'' \<notin> set (EscapeString (''</'' @ ToLower L (Data n) @ ''>''))
         \<and> CHR ''>'' \<notin> set (EscapeString (''</'' @ ToLower L (Data n) @ ''>'')))
    \<and> (\<not> StripDisallowed p \<and> Transformers p = [] \<longrightarrow>
         (\<exists>out. walk L p n d = Some out
            \<and> (\<forall>t \<in> set (subtreeTextsList L (Children n)). sublist (emitText L p t) out)))"
proof (intro conjI impI)
  assume "StripDisallowed p"
  with assms show "walk L p n d = Some []" by (simp add: walk_disallowed)
next
  assume "\<not> StripDisallowed p"
  with assms show "walk L p n d =
           Option.bind (walkNodes L p (Children n) (d + 1))
             (\<lambda>inner. Some (EscapeString (renderOpenTag n) @ inner
                 @ (if \<not> isVoidElement (ToLower L (Data n))
                    then EscapeString (''</'' @ ToLower L (Data n) @ ''>'') else [])))"
    by (simp add: walk_disallowed)
next
  assume a: "\<not> StripDisallowed p \<and> Transformers p = []"
  with assms show "\<exists>out. walk L p n d = Some out
            \<and> (\<forall>t \<in> set (subtreeTextsList L (Children n)). sublist (emitText L p t) out)"
    by (simp add: walk_disallowed_texts)
qed (simp_all add: EscapeString_no_angle)

lemma parse_nav:
  "html_Parse exampleLib ''<nav><b>remove me</b> keep</nav>'' =
     Inr (document [element ''nav'' [] [element ''b'' [] [textNode ''remove me''],
                                        textNode '' keep'']])"
  by (simp add: exampleLib_fields exampleParse_def exampleTrees_def)

theorem veto_below_escaped_counterexample:
  "Sanitize exampleLib ''<nav><b>remove me</b> keep</nav>''
      (Some (DefaultPolicy\<lparr>Transformers := [vetoBold]\<rparr>))
    = Some (Inr ''&lt;nav&gt; keep&lt;/nav&gt;'')
   \<and> \<not> sublist ''remove me'' ''&lt;nav&gt; keep&lt;/nav&gt;''"
proof -
  have "\<not> sublist ''remove me'' ''&lt;nav&gt; keep&lt;/nav&gt;''"
    by code_simp
  then show ?thesis
    by (simp add: Sanitize_document [OF parse_nav] Default_fields Default_tags eval_simps
        vetoBold_def)
qed

theorem disallowed_strip_or_escape_witness:
  "walk exampleLib StrictPolicy (element ''div'' [] [textNode ''gone'']) 1 = Some []
   \<and> walk exampleLib (emptyPolicy\<lparr>AllowedTags := [''p'']\<rparr>)
        (element ''div'' [] [textNode ''escaped'']) 1 = Some ''&lt;div&gt;escaped&lt;/div&gt;''
   \<and> sublist ''escaped'' ''&lt;div&gt;escaped&lt;/div&gt;''"
proof -
  let ?n = "element ''div'' [] [textNode ''gone'']"
  let ?m = "element ''div'' [] [textNode ''escaped'']"
  let ?E = "emptyPolicy\<lparr>AllowedTags := [''p'']\<rparr>"
  have n: "Type ?n = ElementNode" "Type ?m = ElementNode" by (simp_all add: element_def)
  have d1: "ToLower exampleLib (Data ?n) \<notin> sliceToSet exampleLib (AllowedTags StrictPolicy)
      \<or> (MaxDepth StrictPolicy > 0 \<and> 1 > MaxDepth StrictPolicy)"
    by (simp add: element_def StrictPolicy_def sliceToSet_def ToLower_def isASCII_def ToLowerChar_def
        lowerTable_def)
  have d2: "ToLower exampleLib (Data ?m) \<notin> sliceToSet exampleLib (AllowedTags ?E)
      \<or> (MaxDepth ?E > 0 \<and> 1 > MaxDepth ?E)"
    by (simp add: element_def emptyPolicy_def sliceToSet_def ToLower_def isASCII_def ToLowerChar_def
        lowerTable_def)
  have a: "walk exampleLib StrictPolicy ?n 1 = Some []"
    using disallowed_strip_or_escape [OF n(1) d1] by (simp add: StrictPolicy_def)
  have e: "\<not> StripDisallowed ?E \<and> Transformers ?E = []" by (simp add: emptyPolicy_def)
  have w: "walk exampleLib ?E ?m 1 = Some ''&lt;div&gt;escaped&lt;/div&gt;''"
    using disallowed_strip_or_escape [OF n(2) d2] e
    by (simp add: eval_simps emptyPolicy_def)
  obtain out where out: "walk exampleLib ?E ?m 1 = Some out"
      "\<forall>t \<in> set (subtreeTextsList exampleLib (Children ?m)). sublist (emitText exampleLib ?E t) out"
    using disallowed_strip_or_escape [OF n(2) d2] e by blast
  from out(1) w have "out = ''&lt;div&gt;escaped&lt;/div&gt;''" by simp
  with out(2) have "sublist ''escaped'' ''&lt;div&gt;escaped&lt;/div&gt;''"
    by (simp add: element_def textNode_def emitText_def emptyPolicy_def EscapeString_def
        escapeChar_def)
  with a w show ?thesis by blast
qed


section \<open>The attribute filter and URL schemes\<close>

lemma attr_sel: "Key (attr k v) = k" "Val (attr k v) = v" "Namespace (attr k v) = []"
  by (simp_all add: attr_def)

lemmas string_eval = TrimSpace_def isSpace_def ToLower_def isASCII_def ToLowerChar_def
  lowerTable_def stripControl_def

lemma schemes_Default:
  "sliceToSet L (AllowedSchemes DefaultPolicy) = {''http'', ''https'', ''mailto''}"
  by (simp add: Default_fields sliceToSet_def ToLower_def isASCII_def ToLowerChar_def
      lowerTable_def)

lemma ToLower_Nil: "ToLower L [] = []"
  by (simp add: ToLower_def isASCII_def)

lemma parse_frag_https:
  \<open>html_Parse exampleLib ''<a href="https://example.com">'' =
     Inr (document [element ''a'' [attr ''href'' ''https://example.com''] []])\<close>
  by (simp add: exampleLib_fields exampleParse_def exampleTrees_def)

lemma parse_frag_js:
  \<open>html_Parse exampleLib ''<a href="javascript:alert(1)">'' =
     Inr (document [element ''a'' [attr ''href'' ''javascript:alert(1)''] []])\<close>
  by (simp add: exampleLib_fields exampleParse_def exampleTrees_def)

lemma parse_frag_about:
  \<open>html_Parse exampleLib ''<a href="/about">'' =
     Inr (document [element ''a'' [attr ''href'' ''/about''] []])\<close>
  by (simp add: exampleLib_fields exampleParse_def exampleTrees_def)

lemma parse_frag_two_anchors:
  \<open>html_Parse exampleLib ''<a href="javascript:alert(1)//"><a href="x">'' =
     Inr (document [element ''a'' [attr ''href'' ''javascript:alert(1)//''] [],
                    element ''a'' [attr ''href'' ''x''] []])\<close>
  by (simp add: exampleLib_fields exampleParse_def exampleTrees_def)

lemma validated_https:
  "stripControl exampleLib (ToLower exampleLib (TrimSpace exampleLib
     (htmlDecodeMinimal exampleLib (TrimSpace exampleLib ''https://example.com''))))
   = ''https://example.com''"
proof -
  have t: "TrimSpace exampleLib ''https://example.com'' = ''https://example.com''"
    by (simp add: string_eval)
  have d: "htmlDecodeMinimal exampleLib ''https://example.com'' = ''https://example.com''"
    using parse_frag_https by (simp add: htmlDecodeMinimal_def document_def element_def attr_def)
  show ?thesis unfolding t d by (simp add: string_eval)
qed

lemma validated_js:
  "stripControl exampleLib (ToLower exampleLib (TrimSpace exampleLib
     (htmlDecodeMinimal exampleLib (TrimSpace exampleLib ''javascript:alert(1)''))))
   = ''javascript:alert(1)''"
proof -
  have t: "TrimSpace exampleLib ''javascript:alert(1)'' = ''javascript:alert(1)''"
    by (simp add: string_eval)
  have d: "htmlDecodeMinimal exampleLib ''javascript:alert(1)'' = ''javascript:alert(1)''"
    using parse_frag_js by (simp add: htmlDecodeMinimal_def document_def element_def attr_def)
  show ?thesis unfolding t d by (simp add: string_eval)
qed

lemma validated_about:
  "stripControl exampleLib (ToLower exampleLib (TrimSpace exampleLib
     (htmlDecodeMinimal exampleLib (TrimSpace exampleLib ''/about''))))
   = ''/about''"
proof -
  have t: "TrimSpace exampleLib ''/about'' = ''/about''"
    by (simp add: string_eval)
  have d: "htmlDecodeMinimal exampleLib ''/about'' = ''/about''"
    using parse_frag_about by (simp add: htmlDecodeMinimal_def document_def element_def attr_def)
  show ?thesis unfolding t d by (simp add: string_eval)
qed

lemma validated_two_anchors:
  \<open>stripControl exampleLib (ToLower exampleLib (TrimSpace exampleLib
     (htmlDecodeMinimal exampleLib (TrimSpace exampleLib ''javascript:alert(1)//"><a href="x''))))
   = ''x''\<close>
proof -
  have t: \<open>TrimSpace exampleLib ''javascript:alert(1)//"><a href="x''
      = ''javascript:alert(1)//"><a href="x''\<close>
    by (simp add: string_eval)
  have d: \<open>htmlDecodeMinimal exampleLib ''javascript:alert(1)//"><a href="x'' = ''x''\<close>
    using parse_frag_two_anchors
    by (simp add: htmlDecodeMinimal_def document_def element_def attr_def)
  show ?thesis unfolding t d by (simp add: string_eval)
qed

lemma schemeAllowed_unfold:
  "schemeAllowed L v S =
     (case url_Parse L (stripControl L (ToLower L (TrimSpace L
              (htmlDecodeMinimal L (TrimSpace L v))))) of
        Inl err \<Rightarrow> False
      | Inr u \<Rightarrow> ToLower L (Scheme u) = [] \<or> ToLower L (Scheme u) \<in> S)"
  by (auto simp add: schemeAllowed_def Let_def split: sum.splits)

lemma url_examples:
  "url_Parse exampleLib ''https://example.com'' = Inr \<lparr>Scheme = ''https''\<rparr>"
  "url_Parse exampleLib ''javascript:alert(1)'' = Inr \<lparr>Scheme = ''javascript''\<rparr>"
  "url_Parse exampleLib ''/about'' = Inr \<lparr>Scheme = []\<rparr>"
  "url_Parse exampleLib ''x'' = Inr \<lparr>Scheme = []\<rparr>"
  by (simp_all add: exampleLib_fields exampleURL_def)

lemma lower_schemes:
  "ToLower L ''https'' = ''https''" "ToLower L ''javascript'' = ''javascript''"
  by (simp_all add: ToLower_def isASCII_def ToLowerChar_def lowerTable_def)

lemma scheme_examples:
  "schemeAllowed exampleLib ''https://example.com'' {''http'', ''https'', ''mailto''}"
  "\<not> schemeAllowed exampleLib ''javascript:alert(1)'' {''http'', ''https'', ''mailto''}"
  "schemeAllowed exampleLib ''/about'' {''http'', ''https'', ''mailto''}"
  \<open>schemeAllowed exampleLib ''javascript:alert(1)//"><a href="x'' {''http'', ''https'', ''mailto''}\<close>
  by (simp_all add: schemeAllowed_unfold validated_https validated_js validated_about
      validated_two_anchors url_examples lower_schemes ToLower_Nil)

lemma Default_attrs_a:
  "attrAllowed k ''a'' (AllowedAttributes DefaultPolicy) =
     (k \<in> set [''id'', ''class'', ''lang'', ''dir'', ''href'', ''title'', ''target'', ''rel''])"
  by (simp add: attrAllowed_def DefaultPolicy_def)





lemmas walk_eval = Let_def isVoidElement_def EscapeString_def escapeChar_def renderOpenTag_def
  renderAttr_def writeOpen_def walkNodes_Cons walkNodes_Nil walk_Text walk_Element
  textNode_def element_def attr_sel

lemma lower_a: "ToLower L ''a'' = ''a''"
  by (simp add: ToLower_def isASCII_def ToLowerChar_def lowerTable_def)








text \<open>
  A scheme spelled with a numeric character reference reaches the filter decoded by the
  parser, and is rejected like the plain spelling.
\<close>

lemma parse_entity_anchor:
  \<open>html_Parse exampleLib ''<a href="&#106;avascript:alert(1)">click</a>'' =
     Inr (document [element ''a'' [attr ''href'' ''javascript:alert(1)''] [textNode ''click'']])\<close>
  by (simp add: exampleLib_fields exampleParse_def exampleTrees_def)

lemma entity_encoded_scheme_rejected:
  \<open>Sanitize exampleLib ''<a href="&#106;avascript:alert(1)">click</a>'' (Some DefaultPolicy)
    = Some (Inr ''<a>click</a>'')\<close>
  by (simp add: Sanitize_document [OF parse_entity_anchor] Default_fields(1-4) Default_tags
      lower_a schemes_Default Default_attrs_a scheme_examples walk_eval)

text \<open>
  The decoder re-parses the value inside a synthetic anchor and keeps the \<open>href\<close> of the
  last anchor its traversal meets. A value that closes the synthetic attribute and opens
  a second anchor is therefore validated as the \<open>href\<close> of that second anchor.
\<close>

lemma parse_quoted_anchor:
  \<open>html_Parse exampleLib ''<a href='javascript:alert(1)//"><a href="x'>click</a>'' =
     Inr (document [element ''a'' [attr ''href'' ''javascript:alert(1)//"><a href="x'']
                      [textNode ''click'']])\<close>
  by (simp add: exampleLib_fields exampleParse_def exampleTrees_def)

lemma anchor_in_value_passes_validator:
  \<open>Sanitize exampleLib ''<a href='javascript:alert(1)//"><a href="x'>click</a>''
      (Some DefaultPolicy)
    = Some (Inr ''<a href="javascript:alert(1)//&#34;&gt;&lt;a href=&#34;x">click</a>'')\<close>
  by (simp add: Sanitize_document [OF parse_quoted_anchor] Default_fields(1-4) Default_tags
      lower_a schemes_Default Default_attrs_a scheme_examples walk_eval)

section \<open>Sanitizing twice\<close>









end
